theory Spec2Isabelle
  imports Complex_Main "HOL-Library.Word"
begin

section \<open>types.ts\<close>

datatype ConversationStatus = IDLE | LISTENING | PROCESSING

datatype Speaker = user | gemini

record TranscriptEntry =
  speaker :: Speaker
  "text" :: string

section \<open>The platform objects App.tsx holds\<close>

text \<open>
  A JavaScript error value: its name and its \<open>message\<close>.
\<close>

datatype js_error = JsError (errorName: string) (message: string)

text \<open>
  How a promise settles: \<open>await\<close> on a fulfilled promise gives its value, on a rejected
  one it throws the reason. A promise that has not settled yet is \<open>Pending\<close>, and an
  \<open>await\<close> on it does not return before it settles.
\<close>

datatype 'a settled = Fulfilled 'a | Rejected js_error

datatype 'a promise = Pending | SettledWith "'a settled"

datatype LiveSession = LiveSession

datatype ScriptProcessorNode = ScriptProcessorNode

text \<open>\<open>AudioContext.state\<close>.\<close>

datatype AudioContextState = suspended | running | closed

text \<open>A \<open>MediaStream\<close> is known by the tracks \<open>getTracks()\<close> returns.\<close>

record MediaStream =
  getTracks :: "nat list"

text \<open>
  An \<open>AudioBuffer\<close>: its sample rate, its number of channels, its length in sample
  frames and its samples in the order of the wire. \<open>duration\<close> is the length over the
  rate, as the Web Audio API defines it.
\<close>

record AudioBuffer =
  sampleRate :: nat
  numberOfChannels :: nat
  frames :: nat
  samples :: "real list"

definition duration :: "AudioBuffer \<Rightarrow> real" where
  "duration b = real (frames b) / real (sampleRate b)"

text \<open>
  An \<open>AudioBufferSourceNode\<close>: every call of \<open>createBufferSource\<close> gives a new object,
  told apart here by a number; \<open>buffer\<close> is the buffer assigned to it.
\<close>

record AudioBufferSourceNode =
  node :: nat
  buffer :: AudioBuffer

text \<open>
  The calls the component makes on objects outside it, in the order it makes them.
\<close>

datatype effect =
    SessionClose
  | TrackStop nat
  | ProcessorDisconnect
  | InputContextClose
  | OutputContextClose
  | SourceStart AudioBufferSourceNode real
  | SourceStop AudioBufferSourceNode
  | GetUserMedia
  | NewAudioContext nat
  | LiveConnect

section \<open>The state of the App component\<close>

text \<open>
  The three \<open>useState\<close> cells and the nine \<open>useRef\<close> cells of lines 9 to 22, under
  their names. A ref that holds \<open>null\<close> is \<open>None\<close>. \<open>playingSourcesRef\<close> is a
  JavaScript \<open>Set\<close>, which keeps insertion order: a list without repetitions.
  \<open>effects\<close> records the outside calls made so far and \<open>created\<close> counts the source
  nodes created so far; the clock of the output context is an input of each handler.
\<close>

record app =
  status :: ConversationStatus
  transcript :: "TranscriptEntry list"
  error :: "string option"
  sessionPromiseRef :: "LiveSession promise option"
  inputAudioContextRef :: "AudioContextState option"
  outputAudioContextRef :: "AudioContextState option"
  microphoneStreamRef :: "MediaStream option"
  scriptProcessorRef :: "ScriptProcessorNode option"
  currentInputTranscriptionRef :: string
  currentOutputTranscriptionRef :: string
  nextStartTimeRef :: real
  playingSourcesRef :: "AudioBufferSourceNode list"
  effects :: "effect list"
  created :: nat

definition initial :: app where
  "initial = \<lparr>status = IDLE, transcript = [], error = None, sessionPromiseRef = None,
     inputAudioContextRef = None, outputAudioContextRef = None, microphoneStreamRef = None,
     scriptProcessorRef = None, currentInputTranscriptionRef = [],
     currentOutputTranscriptionRef = [], nextStartTimeRef = 0, playingSourcesRef = [],
     effects = [], created = 0\<rparr>"

definition call :: "effect list \<Rightarrow> app \<Rightarrow> app" where
  "call es s = s\<lparr>effects := effects s @ es\<rparr>"

section \<open>stopConversation (App.tsx, lines 30 to 71)\<close>

text \<open>
  \<open>AudioContext.close()\<close> returns a promise that is rejected with an
  \<open>InvalidStateError\<close> when the context is closed already; this is the failure the
  guards of lines 52 and 57 are there for.
\<close>

definition AudioContext_close :: "AudioContextState \<Rightarrow> js_error + AudioContextState" where
  "AudioContext_close ctx =
     (if ctx = closed
      then Inl (JsError ''InvalidStateError'' ''Cannot close a closed AudioContext.'')
      else Inr closed)"

text \<open>
  The promise the ref holds settles. This is an event of the transport, not code of the
  component: no handler of the component is attached to a rejection of this promise. The
  code waiting for it is the \<open>await\<close> of line 34; the \<open>then\<close> of line 116 only sends
  captured audio to a fulfilled session and changes nothing of the state.
\<close>

definition sessionSettles :: "LiveSession settled \<Rightarrow> app \<Rightarrow> app" where
  "sessionSettles outcome s =
     (if sessionPromiseRef s = Some Pending
      then s\<lparr>sessionPromiseRef := Some (SettledWith outcome)\<rparr> else s)"

text \<open>
  Lines 34 to 39, once the \<open>await\<close> of line 34 has settled. A rejection throws inside
  the \<open>try\<close>, before \<open>close()\<close> and before the ref is cleared; the \<open>catch\<close> only logs.
\<close>

definition closeSession :: "LiveSession settled \<Rightarrow> app \<Rightarrow> app" where
  "closeSession outcome s =
     (case outcome of
        Rejected e \<Rightarrow> s
      | Fulfilled session \<Rightarrow> (call [SessionClose] s)\<lparr>sessionPromiseRef := None\<rparr>)"

text \<open>Lines 42 to 45.\<close>

definition stopMicrophone :: "app \<Rightarrow> app" where
  "stopMicrophone s =
     (case microphoneStreamRef s of
        None \<Rightarrow> s
      | Some stream \<Rightarrow>
          (call (map TrackStop (getTracks stream)) s)\<lparr>microphoneStreamRef := None\<rparr>)"

text \<open>Lines 47 to 50.\<close>

definition disconnectProcessor :: "app \<Rightarrow> app" where
  "disconnectProcessor s =
     (case scriptProcessorRef s of
        None \<Rightarrow> s
      | Some p \<Rightarrow> (call [ProcessorDisconnect] s)\<lparr>scriptProcessorRef := None\<rparr>)"

text \<open>Lines 52 to 55.\<close>

definition closeInputContext :: "app \<Rightarrow> js_error + app" where
  "closeInputContext s =
     (case inputAudioContextRef s of
        None \<Rightarrow> Inr s
      | Some ctx \<Rightarrow>
          if ctx \<noteq> closed
          then (case AudioContext_close ctx of
                  Inl e \<Rightarrow> Inl e
                | Inr ctx' \<Rightarrow> Inr ((call [InputContextClose] s)\<lparr>inputAudioContextRef := None\<rparr>))
          else Inr s)"

text \<open>
  The loop over \<open>playingSourcesRef.current.values()\<close> followed by \<open>clear()\<close>: lines 58 to
  61, and again lines 177 to 180.
\<close>

definition stopAllSources :: "app \<Rightarrow> app" where
  "stopAllSources s = (call (map SourceStop (playingSourcesRef s)) s)\<lparr>playingSourcesRef := []\<rparr>"

text \<open>Lines 57 to 64.\<close>

definition closeOutputContext :: "app \<Rightarrow> js_error + app" where
  "closeOutputContext s =
     (case outputAudioContextRef s of
        None \<Rightarrow> Inr s
      | Some ctx \<Rightarrow>
          if ctx \<noteq> closed
          then (let s1 = stopAllSources s in
                case AudioContext_close ctx of
                  Inl e \<Rightarrow> Inl e
                | Inr ctx' \<Rightarrow> Inr ((call [OutputContextClose] s1)\<lparr>outputAudioContextRef := None\<rparr>))
          else Inr s)"

text \<open>Lines 66 to 70.\<close>

definition resetTurnState :: "app \<Rightarrow> app" where
  "resetTurnState s =
     s\<lparr>currentInputTranscriptionRef := [], currentOutputTranscriptionRef := [],
       nextStartTimeRef := 0, status := IDLE\<rparr>"

text \<open>
  Lines 42 to 70, everything after the \<open>try\<close> statement. \<open>Inl\<close> is the promise of the
  \<open>async\<close> function being rejected.
\<close>

definition releaseRest :: "app \<Rightarrow> js_error + app" where
  "releaseRest s =
     (let s3 = stopMicrophone s;
          s4 = disconnectProcessor s3
      in case closeInputContext s4 of
           Inl e \<Rightarrow> Inl e
         | Inr s5 \<Rightarrow>
             (case closeOutputContext s5 of
                Inl e \<Rightarrow> Inl e
              | Inr s6 \<Rightarrow> Inr (resetTurnState s6)))"

text \<open>
  How a call of an \<open>async\<close> function of the component stands: it has finished (with a
  state, or rejected), or it is waiting at the \<open>await\<close> of line 34 for the session
  promise to settle, with the state it has reached.
\<close>

datatype run = Finished "js_error + app" | AwaitingSession app

text \<open>
  The function up to the point where it finishes or has to wait. With no promise in the
  ref the \<open>if\<close> of line 33 skips the \<open>await\<close>; with a settled one the \<open>await\<close> returns
  or throws and the function goes on; with a pending one it waits, having done nothing
  but \<open>setStatus(PROCESSING)\<close>.
\<close>

definition stopConversation :: "app \<Rightarrow> run" where
  "stopConversation s =
     (let s1 = s\<lparr>status := PROCESSING\<rparr>
      in case sessionPromiseRef s1 of
           None \<Rightarrow> Finished (releaseRest s1)
         | Some Pending \<Rightarrow> AwaitingSession s1
         | Some (SettledWith outcome) \<Rightarrow> Finished (releaseRest (closeSession outcome s1)))"

text \<open>
  The rest of a waiting call, run when the awaited promise settles, on the state as it
  is then.
\<close>

definition stopConversation_resume :: "LiveSession settled \<Rightarrow> app \<Rightarrow> js_error + app" where
  "stopConversation_resume outcome s =
     releaseRest (closeSession outcome (sessionSettles outcome s))"

text \<open>
  A call carried to its end: a finished call as it is, a waiting call resumed with the
  promise settling as given and no other callback in between.
\<close>

definition afterSettling :: "LiveSession settled \<Rightarrow> run \<Rightarrow> js_error + app" where
  "afterSettling outcome r =
     (case r of Finished x \<Rightarrow> x | AwaitingSession s \<Rightarrow> stopConversation_resume outcome s)"

section \<open>startConversation (App.tsx, lines 73 to 200)\<close>

text \<open>
  What the function finds outside the component: \<open>process.env.API_KEY\<close>, how the
  promise of \<open>getUserMedia\<close>, which is awaited at once, settles, and whether the page has
  an \<open>AudioContext\<close> constructor.
\<close>

record environment =
  API_KEY :: "string option"
  getUserMedia :: "MediaStream settled"
  hasAudioContext :: bool

text \<open>
  The \<open>catch\<close> block, lines 195 to 199. It awaits \<open>stopConversation\<close>, so it stands
  as that call stands.
\<close>

definition startFailed :: "js_error \<Rightarrow> app \<Rightarrow> run" where
  "startFailed err s =
     stopConversation
       (s\<lparr>error := Some (if message err \<noteq> [] then message err
                           else ''An unexpected error occurred.'')\<rparr>)"

text \<open>Lines 76 to 78.\<close>

definition resetForStart :: "app \<Rightarrow> app" where
  "resetForStart s = s\<lparr>status := PROCESSING, error := None, transcript := []\<rparr>"

text \<open>
  The \<open>try\<close> block, lines 80 to 193. \<open>connect\<close> is not awaited: its promise, still
  pending, is stored in the ref and the function returns. A later rejection of that
  promise is not thrown inside this \<open>try\<close>.
\<close>

definition acquire :: "environment \<Rightarrow> app \<Rightarrow> run" where
  "acquire env s =
     (if API_KEY env = None \<or> API_KEY env = Some []
      then startFailed (JsError ''Error'' ''API_KEY environment variable not set.'') s
      else case getUserMedia env of
             Rejected err \<Rightarrow> startFailed err (call [GetUserMedia] s)
           | Fulfilled stream \<Rightarrow>
               (let s1 = (call [GetUserMedia] s)\<lparr>microphoneStreamRef := Some stream\<rparr> in
                if \<not> hasAudioContext env
                then startFailed
                       (JsError ''TypeError'' ''CrossBrowserAudioContext is not a constructor'') s1
                else Finished (Inr
                       ((call [NewAudioContext 16000, NewAudioContext 24000, LiveConnect] s1)
                        \<lparr>inputAudioContextRef := Some running,
                         outputAudioContextRef := Some running,
                         sessionPromiseRef := Some Pending\<rparr>))))"

definition startConversation :: "environment \<Rightarrow> app \<Rightarrow> run" where
  "startConversation env s =
     (if status s \<noteq> IDLE then Finished (Inr s) else acquire env (resetForStart s))"

text \<open>The \<open>onopen\<close> callback, lines 106 to 125.\<close>

definition onopen :: "app \<Rightarrow> app" where
  "onopen s =
     (if inputAudioContextRef s = None then s
      else s\<lparr>scriptProcessorRef := Some ScriptProcessorNode, status := LISTENING\<rparr>)"

text \<open>
  The \<open>onerror\<close> callback, lines 184 to 188. \<open>stopConversation\<close> is called and not
  awaited; the callback's effect on the state is that call's.
\<close>

definition onerror :: "js_error \<Rightarrow> app \<Rightarrow> run" where
  "onerror e s = stopConversation (s\<lparr>error := Some (''Connection error: '' @ message e)\<rparr>)"

section \<open>The onmessage callback (App.tsx, lines 126 to 183)\<close>

text \<open>
  The fields of \<open>message.serverContent\<close> the handler reads. An absent
  \<open>serverContent\<close> is a message with every field absent. A transcription is given by
  its \<open>text\<close>, a part by the \<open>data\<close> of its \<open>inlineData\<close>.
\<close>

datatype Part = Part (inlineData: "string option")

record Content =
  parts :: "Part list option"

record LiveServerMessage =
  outputTranscription :: "string option"
  inputTranscription :: "string option"
  turnComplete :: bool
  modelTurn :: "Content option"
  interrupted :: bool

text \<open>
  \<open>String.prototype.trim\<close>: white space and line terminators are removed from both
  ends. A \<open>char\<close> stands for one code unit below 256, where the white space of
  ECMAScript is tab, line feed, vertical tab, form feed, carriage return, space and the
  no-break space.
\<close>

definition isWhiteSpace :: "char \<Rightarrow> bool" where
  "isWhiteSpace c = ((of_char c :: nat) \<in> set [9, 10, 11, 12, 13, 32, 160])"

definition trim :: "string \<Rightarrow> string" where
  "trim str = rev (dropWhile isWhiteSpace (rev (dropWhile isWhiteSpace str)))"

text \<open>Lines 127 to 133: the output transcription wins when both are present.\<close>

definition appendFragment :: "LiveServerMessage \<Rightarrow> app \<Rightarrow> app" where
  "appendFragment m s =
     (case outputTranscription m of
        Some t \<Rightarrow> s\<lparr>currentOutputTranscriptionRef := currentOutputTranscriptionRef s @ t\<rparr>
      | None \<Rightarrow>
          (case inputTranscription m of
             Some t \<Rightarrow> s\<lparr>currentInputTranscriptionRef := currentInputTranscriptionRef s @ t\<rparr>
           | None \<Rightarrow> s))"

text \<open>Lines 136 to 147, the body of the \<open>turnComplete\<close> branch.\<close>

definition completeTurn :: "app \<Rightarrow> app" where
  "completeTurn s =
     (let fullInput = trim (currentInputTranscriptionRef s);
          fullOutput = trim (currentOutputTranscriptionRef s);
          s1 = (if fullInput \<noteq> []
                then s\<lparr>transcript := transcript s @ [\<lparr>speaker = user, text = fullInput\<rparr>]\<rparr>
                else s);
          s2 = (if fullOutput \<noteq> []
                then s1\<lparr>transcript := transcript s1 @ [\<lparr>speaker = gemini, text = fullOutput\<rparr>]\<rparr>
                else s1)
      in s2\<lparr>currentInputTranscriptionRef := [], currentOutputTranscriptionRef := []\<rparr>)"

text \<open>
  Line 150: \<open>message.serverContent?.modelTurn?.parts[0]?.inlineData?.data\<close>. There is
  no \<open>?.\<close> between \<open>parts\<close> and \<open>[0]\<close>: a \<open>modelTurn\<close> without \<open>parts\<close> throws a
  \<open>TypeError\<close>.
\<close>

definition audioDataOf :: "LiveServerMessage \<Rightarrow> js_error + string option" where
  "audioDataOf m =
     (case modelTurn m of
        None \<Rightarrow> Inr None
      | Some content \<Rightarrow>
          (case parts content of
             None \<Rightarrow> Inl (JsError ''TypeError'' ''Cannot read properties of undefined'')
           | Some [] \<Rightarrow> Inr None
           | Some (p # ps) \<Rightarrow> Inr (inlineData p)))"

text \<open>Lines 177 to 181, the body of the \<open>interrupted\<close> branch.\<close>

definition flush :: "app \<Rightarrow> app" where
  "flush s = (stopAllSources s)\<lparr>nextStartTimeRef := 0\<rparr>"

text \<open>Lines 175 to 182.\<close>

definition interruption :: "LiveServerMessage \<Rightarrow> app \<Rightarrow> app" where
  "interruption m s =
     (if interrupted m \<and> outputAudioContextRef s \<noteq> None then flush s else s)"

text \<open>
  Lines 127 to 148 together: what the handler does with the transcriptions and the
  \<open>turnComplete\<close> flag of a message, before it looks at the audio.
\<close>

definition textPart :: "LiveServerMessage \<Rightarrow> app \<Rightarrow> app" where
  "textPart m s = (if turnComplete m then completeTurn (appendFragment m s) else appendFragment m s)"

text \<open>
  How a run of the handler ends: it returns, or it throws (for an \<open>async\<close> function,
  its promise is rejected). What it wrote to the refs before stays written either way.
\<close>

datatype completion = Returned app | Threw js_error app

fun state_of :: "completion \<Rightarrow> app" where
  "state_of (Returned s) = s"
| "state_of (Threw e s) = s"

text \<open>
  The handler has one \<open>await\<close>, at line 155. Up to there it runs when the message
  arrives; the rest runs when \<open>decodeAudioData(decode(audioData), ...)\<close> has settled.
\<close>

datatype suspension = Settled completion | AwaitingDecode string app

text \<open>
  Lines 127 to 155, up to the \<open>await\<close>; \<open>now\<close> is \<open>audioContext.currentTime\<close>. An empty
  string is falsy, as is a \<open>null\<close> ref.
\<close>

definition onmessage_arrive :: "LiveServerMessage \<Rightarrow> real \<Rightarrow> app \<Rightarrow> suspension" where
  "onmessage_arrive m now s =
     (let s1 = appendFragment m s;
          s2 = (if turnComplete m then completeTurn s1 else s1)
      in case audioDataOf m of
           Inl e \<Rightarrow> Settled (Threw e s2)
         | Inr None \<Rightarrow> Settled (Returned (interruption m s2))
         | Inr (Some audioData) \<Rightarrow>
             if audioData \<noteq> [] \<and> outputAudioContextRef s2 \<noteq> None
             then AwaitingDecode audioData
                    (s2\<lparr>nextStartTimeRef := max (nextStartTimeRef s2) now\<rparr>)
             else Settled (Returned (interruption m s2)))"

text \<open>\<open>Set.prototype.add\<close>: nothing changes when the element is there already.\<close>

definition set_add :: "'a \<Rightarrow> 'a list \<Rightarrow> 'a list" where
  "set_add x xs = (if x \<in> set xs then xs else xs @ [x])"

text \<open>
  Lines 155 to 182, from the \<open>await\<close> on, given how the decoding settled. A rejected
  decoding rejects the handler there: nothing after line 155 runs.
\<close>

definition onmessage_resume :: "LiveServerMessage \<Rightarrow> js_error + AudioBuffer \<Rightarrow> app \<Rightarrow> completion" where
  "onmessage_resume m decoded s =
     (case decoded of
        Inl e \<Rightarrow> Threw e s
      | Inr audioBuffer \<Rightarrow>
          (let source = \<lparr>node = created s, buffer = audioBuffer\<rparr>;
               s1 = (call [SourceStart source (nextStartTimeRef s)] s)\<lparr>created := Suc (created s)\<rparr>;
               s2 = s1\<lparr>nextStartTimeRef := nextStartTimeRef s1 + duration audioBuffer\<rparr>;
               s3 = s2\<lparr>playingSourcesRef := set_add source (playingSourcesRef s2)\<rparr>
           in Returned (interruption m s3)))"

text \<open>The \<open>ended\<close> listener of a source, lines 166 to 168.\<close>

definition ended :: "AudioBufferSourceNode \<Rightarrow> app \<Rightarrow> app" where
  "ended source s = s\<lparr>playingSourcesRef := removeAll source (playingSourcesRef s)\<rparr>"

text \<open>
  The handler run from arrival to its end with no other callback in between: the
  decoding settles before anything else happens. \<open>dec\<close> is
  \<open>decodeAudioData(decode(audioData), audioContext, 24000, 1)\<close>.
\<close>

definition onmessage ::
  "(string \<Rightarrow> js_error + AudioBuffer) \<Rightarrow> LiveServerMessage \<Rightarrow> real \<Rightarrow> app \<Rightarrow> completion" where
  "onmessage dec m now s =
     (case onmessage_arrive m now s of
        Settled c \<Rightarrow> c
      | AwaitingDecode audioData s1 \<Rightarrow> onmessage_resume m (dec audioData) s1)"

text \<open>
  Messages handled one after the other, each with the reading of the output clock at
  its arrival. A handler that throws leaves the state it reached.
\<close>

definition handleAll ::
  "(string \<Rightarrow> js_error + AudioBuffer) \<Rightarrow> (LiveServerMessage \<times> real) list \<Rightarrow> app \<Rightarrow> app" where
  "handleAll dec ms s = fold (\<lambda>(m, now) s'. state_of (onmessage dec m now s')) ms s"

text \<open>A message with nothing in it, to build messages from.\<close>

definition emptyMessage :: LiveServerMessage where
  "emptyMessage = \<lparr>outputTranscription = None, inputTranscription = None,
     turnComplete = False, modelTurn = None, interrupted = False\<rparr>"

definition audioMessage :: "string \<Rightarrow> LiveServerMessage" where
  "audioMessage d = emptyMessage\<lparr>modelTurn := Some \<lparr>parts = Some [Part (Some d)]\<rparr>\<rparr>"

definition inputFragment :: "string \<Rightarrow> LiveServerMessage" where
  "inputFragment t = emptyMessage\<lparr>inputTranscription := Some t\<rparr>"

definition outputFragment :: "string \<Rightarrow> LiveServerMessage" where
  "outputFragment t = emptyMessage\<lparr>outputTranscription := Some t\<rparr>"

definition turnCompleted :: LiveServerMessage where
  "turnCompleted = emptyMessage\<lparr>turnComplete := True\<rparr>"

section \<open>The PCM codec (utils/audioUtils, specification 4.1)\<close>

text \<open>
  Modelled from the spec: \<open>encode\<close>, \<open>decode\<close> and \<open>decodeAudioData\<close> are imported from
  \<open>./utils/audioUtils\<close>, which is not among the source files. They follow section 4.1
  of the specification. Samples are real numbers here, not floating-point numbers.
\<close>

type_synonym byte = "8 word"

text \<open>
  Modelled from the spec: each sample is mapped to \<open>round(sample * 32767)\<close>, clamped to
  \<open>[-32768, 32767]\<close>. \<open>round\<close> is \<open>floor(x + 1/2)\<close>, as \<open>Math.round\<close> is.
\<close>

definition quantize :: "real \<Rightarrow> int" where
  "quantize x = max (- 32768) (min 32767 (round (x * 32767)))"

text \<open>
  Modelled from the spec: a signed 16-bit integer packed as two little-endian bytes
  (two's complement).
\<close>

definition int16_bytes :: "int \<Rightarrow> byte list" where
  "int16_bytes v = (let u = nat (v mod 65536) in [of_nat (u mod 256), of_nat (u div 256)])"

text \<open>
  Modelled from the spec: base64, with the standard alphabet \<open>A-Z a-z 0-9 + /\<close> and
  \<open>=\<close> as padding.
\<close>

definition base64_char :: "nat \<Rightarrow> char" where
  "base64_char n =
     (if n < 26 then char_of (65 + n)
      else if n < 52 then char_of (71 + n)
      else if n < 62 then char_of (n - 4)
      else if n = 62 then CHR ''+'' else CHR ''/'')"

text \<open>
  Modelled from the spec: the value of a character of the base64 alphabet, \<open>None\<close> for
  any other character.
\<close>

definition base64_value :: "char \<Rightarrow> nat option" where
  "base64_value c =
     (let k = (of_char c :: nat) in
      if 65 \<le> k \<and> k \<le> 90 then Some (k - 65)
      else if 97 \<le> k \<and> k \<le> 122 then Some (k - 71)
      else if 48 \<le> k \<and> k \<le> 57 then Some (k + 4)
      else if k = 43 then Some 62
      else if k = 47 then Some 63
      else None)"

text \<open>
  Modelled from the spec: three bytes give four characters of six bits each; one or two
  bytes left over give two or three characters and padding.
\<close>

fun base64_encode :: "byte list \<Rightarrow> string" where
  "base64_encode [] = []"
| "base64_encode [a] =
     [base64_char (unat a div 4), base64_char (unat a mod 4 * 16), CHR ''='', CHR ''='']"
| "base64_encode [a, b] =
     [base64_char (unat a div 4), base64_char (unat a mod 4 * 16 + unat b div 16),
      base64_char (unat b mod 16 * 4), CHR ''='']"
| "base64_encode (a # b # c # rest) =
     [base64_char (unat a div 4), base64_char (unat a mod 4 * 16 + unat b div 16),
      base64_char (unat b mod 16 * 4 + unat c div 64), base64_char (unat c mod 64)] @
     base64_encode rest"

text \<open>
  Modelled from the spec: the inverse, \<open>None\<close> when the input is not valid base64 (a
  character outside the alphabet, a length that is not a multiple of four, padding
  anywhere but at the end).
\<close>

fun base64_decode :: "string \<Rightarrow> byte list option" where
  "base64_decode [] = Some []"
| "base64_decode (c1 # c2 # c3 # c4 # rest) =
     (case (base64_value c1, base64_value c2) of
        (Some v1, Some v2) \<Rightarrow>
          if rest = [] \<and> c3 = CHR ''='' \<and> c4 = CHR ''=''
          then Some [of_nat (v1 * 4 + v2 div 16)]
          else (case base64_value c3 of
                  Some v3 \<Rightarrow>
                    if rest = [] \<and> c4 = CHR ''=''
                    then Some [of_nat (v1 * 4 + v2 div 16), of_nat (v2 mod 16 * 16 + v3 div 4)]
                    else (case base64_value c4 of
                            Some v4 \<Rightarrow>
                              (case base64_decode rest of
                                 Some bytes \<Rightarrow>
                                   Some (of_nat (v1 * 4 + v2 div 16) #
                                         of_nat (v2 mod 16 * 16 + v3 div 4) #
                                         of_nat (v3 mod 4 * 64 + v4) # bytes)
                               | None \<Rightarrow> None)
                          | None \<Rightarrow> None)
                | None \<Rightarrow> None)
      | _ \<Rightarrow> None)"
| "base64_decode cs = None"

text \<open>
  Modelled from the spec: \<open>encode(samples)\<close> quantizes each sample, packs it as
  little-endian bytes and base64-encodes the bytes.
\<close>

definition encode :: "real list \<Rightarrow> string" where
  "encode xs = base64_encode (concat (map (\<lambda>x. int16_bytes (quantize x)) xs))"

text \<open>
  Modelled from the spec: \<open>decode(frame)\<close> is the base64 decoding; it fails with
  \<open>MalformedPayload\<close> if the input is not valid base64.
\<close>

definition decode :: "string \<Rightarrow> js_error + byte list" where
  "decode frame =
     (case base64_decode frame of
        None \<Rightarrow> Inl (JsError ''MalformedPayload'' ''not valid base64'')
      | Some bytes \<Rightarrow> Inr bytes)"

text \<open>
  Modelled from the spec: bytes read as signed 16-bit little-endian samples.
\<close>

definition int16_of_bytes :: "byte \<Rightarrow> byte \<Rightarrow> int" where
  "int16_of_bytes lo hi =
     (let u = unat lo + 256 * unat hi in if u < 32768 then int u else int u - 65536)"

fun int16s :: "byte list \<Rightarrow> int list" where
  "int16s (lo # hi # rest) = int16_of_bytes lo hi # int16s rest"
| "int16s bytes = []"

text \<open>
  Modelled from the spec: \<open>decodeAudioData(bytes, targetSampleRate, channelCount)\<close>
  converts each sample to \<open>value / 32768\<close> and gives a chunk of
  \<open>byteLength / 2 / channelCount\<close> samples per channel; it fails with
  \<open>InvalidAudioData\<close> if the byte length is not a multiple of \<open>2 * channelCount\<close>.
\<close>

definition decodeAudioData :: "byte list \<Rightarrow> nat \<Rightarrow> nat \<Rightarrow> js_error + AudioBuffer" where
  "decodeAudioData bytes targetSampleRate channelCount =
     (if length bytes mod (2 * channelCount) \<noteq> 0
      then Inl (JsError ''InvalidAudioData'' ''byte length is not a multiple of the frame size'')
      else Inr \<lparr>sampleRate = targetSampleRate, numberOfChannels = channelCount,
                frames = length bytes div 2 div channelCount,
                samples = map (\<lambda>v. real_of_int v / 32768) (int16s bytes)\<rparr>)"

text \<open>
  The call of line 155: \<open>decodeAudioData(decode(audioData), audioContext, 24000, 1)\<close>.
  An exception of \<open>decode\<close> is an exception of the whole expression.
\<close>

definition decodeChunk :: "string \<Rightarrow> js_error + AudioBuffer" where
  "decodeChunk audioData =
     (case decode audioData of
        Inl e \<Rightarrow> Inl e
      | Inr bytes \<Rightarrow> decodeAudioData bytes 24000 1)"

section \<open>What is observed of a state\<close>

text \<open>
  The resources a state still holds: the transport session of a fulfilled promise, the
  microphone stream, the capture node, and each audio context that is not closed. A
  pending promise has not given a session yet.
\<close>

datatype resource = Transport | Microphone | CaptureNode | InputContext | OutputContext

definition held :: "app \<Rightarrow> resource list" where
  "held s =
     (case sessionPromiseRef s of
        Some (SettledWith (Fulfilled session)) \<Rightarrow> [Transport] | _ \<Rightarrow> []) @
     (case microphoneStreamRef s of Some stream \<Rightarrow> [Microphone] | None \<Rightarrow> []) @
     (case scriptProcessorRef s of Some p \<Rightarrow> [CaptureNode] | None \<Rightarrow> []) @
     (case inputAudioContextRef s of
        Some ctx \<Rightarrow> if ctx \<noteq> closed then [InputContext] else [] | None \<Rightarrow> []) @
     (case outputAudioContextRef s of
        Some ctx \<Rightarrow> if ctx \<noteq> closed then [OutputContext] else [] | None \<Rightarrow> [])"

text \<open>
  The release calls each guarded step of \<open>stopConversation\<close> is expected to make in a
  state, and their concatenation in the order of the steps.
\<close>

definition sessionRelease :: "app \<Rightarrow> effect list" where
  "sessionRelease s =
     (case sessionPromiseRef s of
        Some (SettledWith (Fulfilled session)) \<Rightarrow> [SessionClose] | _ \<Rightarrow> [])"

definition microphoneRelease :: "app \<Rightarrow> effect list" where
  "microphoneRelease s =
     (case microphoneStreamRef s of
        Some stream \<Rightarrow> map TrackStop (getTracks stream) | None \<Rightarrow> [])"

definition processorRelease :: "app \<Rightarrow> effect list" where
  "processorRelease s =
     (case scriptProcessorRef s of Some p \<Rightarrow> [ProcessorDisconnect] | None \<Rightarrow> [])"

definition inputRelease :: "app \<Rightarrow> effect list" where
  "inputRelease s =
     (case inputAudioContextRef s of
        Some ctx \<Rightarrow> if ctx \<noteq> closed then [InputContextClose] else [] | None \<Rightarrow> [])"

definition outputRelease :: "app \<Rightarrow> effect list" where
  "outputRelease s =
     (case outputAudioContextRef s of
        Some ctx \<Rightarrow>
          if ctx \<noteq> closed then map SourceStop (playingSourcesRef s) @ [OutputContextClose]
          else []
      | None \<Rightarrow> [])"

definition restRelease :: "app \<Rightarrow> effect list" where
  "restRelease s = microphoneRelease s @ processorRelease s @ inputRelease s @ outputRelease s"

definition teardown :: "app \<Rightarrow> effect list" where
  "teardown s = sessionRelease s @ restRelease s"

text \<open>States and environments to evaluate the functions at.\<close>

definition goodEnvironment :: environment where
  "goodEnvironment = \<lparr>API_KEY = Some ''key'', getUserMedia = Fulfilled \<lparr>getTracks = [0]\<rparr>,
     hasAudioContext = True\<rparr>"

definition connecting :: app where
  "connecting = initial\<lparr>status := PROCESSING,
     sessionPromiseRef := Some Pending,
     inputAudioContextRef := Some running, outputAudioContextRef := Some running,
     microphoneStreamRef := Some \<lparr>getTracks = [0]\<rparr>,
     effects := [GetUserMedia, NewAudioContext 16000, NewAudioContext 24000, LiveConnect]\<rparr>"

definition listening :: app where
  "listening = initial\<lparr>status := LISTENING,
     sessionPromiseRef := Some (SettledWith (Fulfilled LiveSession)),
     inputAudioContextRef := Some running, outputAudioContextRef := Some running,
     microphoneStreamRef := Some \<lparr>getTracks = [0]\<rparr>,
     scriptProcessorRef := Some ScriptProcessorNode,
     effects := [GetUserMedia, NewAudioContext 16000, NewAudioContext 24000, LiveConnect]\<rparr>"

definition chunk :: AudioBuffer where
  "chunk = \<lparr>sampleRate = 24000, numberOfChannels = 1, frames = 2, samples = [0, 0]\<rparr>"

definition playing :: app where
  "playing = listening\<lparr>nextStartTimeRef := 1 / 12000,
     playingSourcesRef := [\<lparr>node = 0, buffer = chunk\<rparr>],
     effects := effects listening @ [SourceStart \<lparr>node = 0, buffer = chunk\<rparr> 0],
     created := 1\<rparr>"

definition talked :: app where
  "talked = listening\<lparr>transcript :=
     [\<lparr>speaker = user, text = ''hello''\<rparr>, \<lparr>speaker = gemini, text = ''hi''\<rparr>]\<rparr>"

definition finished :: app where
  "finished = initial\<lparr>transcript :=
     [\<lparr>speaker = user, text = ''hello''\<rparr>, \<lparr>speaker = gemini, text = ''hi''\<rparr>]\<rparr>"

definition deniedEnvironment :: environment where
  "deniedEnvironment =
     goodEnvironment\<lparr>getUserMedia := Rejected (JsError ''NotAllowedError'' ''Permission denied'')\<rparr>"

text \<open>The position of a release call in the order of the teardown.\<close>

fun releaseStep :: "effect \<Rightarrow> nat" where
  "releaseStep SessionClose = 1"
| "releaseStep (TrackStop t) = 2"
| "releaseStep ProcessorDisconnect = 3"
| "releaseStep InputContextClose = 4"
| "releaseStep (SourceStop src) = 5"
| "releaseStep OutputContextClose = 6"
| "releaseStep e = 0"

text \<open>
  The chunks scheduled so far, read off the calls of \<open>source.start\<close>: the start time
  and the duration of each, in the order of the calls.
\<close>

fun scheduledBy :: "effect \<Rightarrow> (real \<times> real) list" where
  "scheduledBy (SourceStart source t) = [(t, duration (buffer source))]"
| "scheduledBy e = []"

definition scheduled :: "app \<Rightarrow> (real \<times> real) list" where
  "scheduled s = concat (map scheduledBy (effects s))"

text \<open>
  The specification's words for a plan of chunks: \<open>start[i+1] == start[i] + duration[i]\<close>
  for all consecutive pairs.
\<close>

definition gapless :: "(real \<times> real) list \<Rightarrow> bool" where
  "gapless plan = successively (\<lambda>(t, d) (t', d'). t' = t + d) plan"

text \<open>No chunk starts before the one scheduled before it has ended.\<close>

definition inOrder :: "(real \<times> real) list \<Rightarrow> bool" where
  "inOrder plan = successively (\<lambda>(t, d) (t', d'). t + d \<le> t') plan"

section \<open>Teardown and start: proofs\<close>

lemma sessionSettles_fields [simp]:
  "effects (sessionSettles outcome s) = effects s"
  "microphoneStreamRef (sessionSettles outcome s) = microphoneStreamRef s"
  "scriptProcessorRef (sessionSettles outcome s) = scriptProcessorRef s"
  "inputAudioContextRef (sessionSettles outcome s) = inputAudioContextRef s"
  "outputAudioContextRef (sessionSettles outcome s) = outputAudioContextRef s"
  "playingSourcesRef (sessionSettles outcome s) = playingSourcesRef s"
  "transcript (sessionSettles outcome s) = transcript s"
  "error (sessionSettles outcome s) = error s"
  "created (sessionSettles outcome s) = created s"
  "status (sessionSettles outcome s) = status s"
  by (simp_all add: sessionSettles_def)

lemma sessionSettles_settled [simp]:
  "sessionPromiseRef s \<noteq> Some Pending \<Longrightarrow> sessionSettles outcome s = s"
  by (simp add: sessionSettles_def)

lemma sessionSettles_pending [simp]:
  "sessionPromiseRef s = Some Pending \<Longrightarrow>
     sessionPromiseRef (sessionSettles outcome s) = Some (SettledWith outcome)"
  by (simp add: sessionSettles_def)

lemma closeSession_fields [simp]:
  "effects (closeSession outcome s) =
     effects s @ (case outcome of Fulfilled session \<Rightarrow> [SessionClose] | Rejected e \<Rightarrow> [])"
  "sessionPromiseRef (closeSession outcome s) =
     (case outcome of Fulfilled session \<Rightarrow> None | Rejected e \<Rightarrow> sessionPromiseRef s)"
  "microphoneStreamRef (closeSession outcome s) = microphoneStreamRef s"
  "scriptProcessorRef (closeSession outcome s) = scriptProcessorRef s"
  "inputAudioContextRef (closeSession outcome s) = inputAudioContextRef s"
  "outputAudioContextRef (closeSession outcome s) = outputAudioContextRef s"
  "playingSourcesRef (closeSession outcome s) = playingSourcesRef s"
  "transcript (closeSession outcome s) = transcript s"
  "error (closeSession outcome s) = error s"
  "created (closeSession outcome s) = created s"
  by (simp_all add: closeSession_def call_def split: settled.splits)

lemma stopMicrophone_fields [simp]:
  "effects (stopMicrophone s) = effects s @ microphoneRelease s"
  "microphoneStreamRef (stopMicrophone s) = None"
  "sessionPromiseRef (stopMicrophone s) = sessionPromiseRef s"
  "scriptProcessorRef (stopMicrophone s) = scriptProcessorRef s"
  "inputAudioContextRef (stopMicrophone s) = inputAudioContextRef s"
  "outputAudioContextRef (stopMicrophone s) = outputAudioContextRef s"
  "playingSourcesRef (stopMicrophone s) = playingSourcesRef s"
  "transcript (stopMicrophone s) = transcript s"
  "error (stopMicrophone s) = error s"
  "created (stopMicrophone s) = created s"
  by (simp_all add: stopMicrophone_def call_def microphoneRelease_def split: option.splits)

lemma disconnectProcessor_fields [simp]:
  "effects (disconnectProcessor s) = effects s @ processorRelease s"
  "scriptProcessorRef (disconnectProcessor s) = None"
  "microphoneStreamRef (disconnectProcessor s) = microphoneStreamRef s"
  "sessionPromiseRef (disconnectProcessor s) = sessionPromiseRef s"
  "inputAudioContextRef (disconnectProcessor s) = inputAudioContextRef s"
  "outputAudioContextRef (disconnectProcessor s) = outputAudioContextRef s"
  "playingSourcesRef (disconnectProcessor s) = playingSourcesRef s"
  "transcript (disconnectProcessor s) = transcript s"
  "error (disconnectProcessor s) = error s"
  "created (disconnectProcessor s) = created s"
  by (simp_all add: disconnectProcessor_def call_def processorRelease_def split: option.splits)

lemma closeInputContext_eq:
  "closeInputContext s =
     Inr (s\<lparr>effects := effects s @ inputRelease s,
            inputAudioContextRef :=
              (case inputAudioContextRef s of
                 Some ctx \<Rightarrow> if ctx \<noteq> closed then None else Some ctx | None \<Rightarrow> None)\<rparr>)"
  by (simp add: closeInputContext_def AudioContext_close_def call_def inputRelease_def
      split: option.splits)

lemma closeOutputContext_eq:
  "closeOutputContext s =
     Inr (s\<lparr>effects := effects s @ outputRelease s,
            playingSourcesRef :=
              (case outputAudioContextRef s of
                 Some ctx \<Rightarrow> if ctx \<noteq> closed then [] else playingSourcesRef s
               | None \<Rightarrow> playingSourcesRef s),
            outputAudioContextRef :=
              (case outputAudioContextRef s of
                 Some ctx \<Rightarrow> if ctx \<noteq> closed then None else Some ctx | None \<Rightarrow> None)\<rparr>)"
  by (simp add: closeOutputContext_def AudioContext_close_def call_def outputRelease_def
      stopAllSources_def Let_def split: option.splits)

text \<open>What lines 42 to 70 leave, field by field.\<close>

lemma releaseRest_result:
  "\<exists>s'. releaseRest s = Inr s' \<and>
     effects s' = effects s @ restRelease s \<and>
     sessionPromiseRef s' = sessionPromiseRef s \<and>
     microphoneStreamRef s' = None \<and> scriptProcessorRef s' = None \<and>
     inputAudioContextRef s' =
       (case inputAudioContextRef s of
          Some ctx \<Rightarrow> if ctx \<noteq> closed then None else Some ctx | None \<Rightarrow> None) \<and>
     outputAudioContextRef s' =
       (case outputAudioContextRef s of
          Some ctx \<Rightarrow> if ctx \<noteq> closed then None else Some ctx | None \<Rightarrow> None) \<and>
     playingSourcesRef s' =
       (case outputAudioContextRef s of
          Some ctx \<Rightarrow> if ctx \<noteq> closed then [] else playingSourcesRef s
        | None \<Rightarrow> playingSourcesRef s) \<and>
     currentInputTranscriptionRef s' = [] \<and> currentOutputTranscriptionRef s' = [] \<and>
     nextStartTimeRef s' = 0 \<and> status s' = IDLE \<and>
     transcript s' = transcript s \<and> error s' = error s \<and> created s' = created s"
  by (simp add: releaseRest_def Let_def closeInputContext_eq closeOutputContext_eq
      resetTurnState_def restRelease_def microphoneRelease_def
      processorRelease_def inputRelease_def outputRelease_def
      cong: option.case_cong if_cong)

lemma restRelease_updates [simp]:
  "restRelease (s\<lparr>status := x\<rparr>) = restRelease s"
  "restRelease (s\<lparr>error := y\<rparr>) = restRelease s"
  "restRelease (closeSession outcome s) = restRelease s"
  "restRelease (sessionSettles outcome s) = restRelease s"
  by (simp_all add: restRelease_def microphoneRelease_def processorRelease_def
      inputRelease_def outputRelease_def cong: option.case_cong if_cong)

lemma teardown_updates [simp]:
  "teardown (s\<lparr>status := x\<rparr>) = teardown s"
  "teardown (s\<lparr>error := y\<rparr>) = teardown s"
  by (simp_all add: teardown_def sessionRelease_def)

lemma sessionSettles_updates [simp]:
  "sessionSettles outcome (s\<lparr>status := x\<rparr>) = (sessionSettles outcome s)\<lparr>status := x\<rparr>"
  "sessionSettles outcome (s\<lparr>error := y\<rparr>) = (sessionSettles outcome s)\<lparr>error := y\<rparr>"
  by (simp_all add: sessionSettles_def)

text \<open>
  The whole teardown carried to its end from any state: at once when the session
  promise is absent or settled, after the promise has settled when it is pending.
\<close>

lemma stopConversation_result:
  "\<exists>s'. afterSettling outcome (stopConversation s) = Inr s' \<and>
     (sessionPromiseRef s \<noteq> Some Pending \<longrightarrow> stopConversation s = Finished (Inr s')) \<and>
     effects s' = effects s @ teardown (sessionSettles outcome s) \<and>
     sessionPromiseRef s' =
       (case sessionPromiseRef (sessionSettles outcome s) of
          Some (SettledWith (Rejected e)) \<Rightarrow> Some (SettledWith (Rejected e)) | _ \<Rightarrow> None) \<and>
     microphoneStreamRef s' = None \<and> scriptProcessorRef s' = None \<and>
     inputAudioContextRef s' =
       (case inputAudioContextRef s of
          Some ctx \<Rightarrow> if ctx \<noteq> closed then None else Some ctx | None \<Rightarrow> None) \<and>
     outputAudioContextRef s' =
       (case outputAudioContextRef s of
          Some ctx \<Rightarrow> if ctx \<noteq> closed then None else Some ctx | None \<Rightarrow> None) \<and>
     playingSourcesRef s' =
       (case outputAudioContextRef s of
          Some ctx \<Rightarrow> if ctx \<noteq> closed then [] else playingSourcesRef s
        | None \<Rightarrow> playingSourcesRef s) \<and>
     currentInputTranscriptionRef s' = [] \<and> currentOutputTranscriptionRef s' = [] \<and>
     nextStartTimeRef s' = 0 \<and> status s' = IDLE \<and>
     transcript s' = transcript s \<and> error s' = error s \<and> created s' = created s"
proof (cases "sessionPromiseRef s")
  case None
  then show ?thesis
    using releaseRest_result [of "s\<lparr>status := PROCESSING\<rparr>"]
    by (auto simp add: stopConversation_def afterSettling_def teardown_def sessionRelease_def
        cong: option.case_cong if_cong)
next
  case (Some p)
  show ?thesis
  proof (cases p)
    case Pending
    with Some show ?thesis
      using releaseRest_result
        [of "closeSession outcome (sessionSettles outcome (s\<lparr>status := PROCESSING\<rparr>))"]
      by (cases outcome)
        (auto simp add: stopConversation_def afterSettling_def stopConversation_resume_def
          teardown_def sessionRelease_def cong: option.case_cong if_cong)
  next
    case (SettledWith x)
    with Some show ?thesis
      using releaseRest_result [of "closeSession x (s\<lparr>status := PROCESSING\<rparr>)"]
      by (cases x)
        (auto simp add: stopConversation_def afterSettling_def teardown_def sessionRelease_def
          cong: option.case_cong if_cong)
  qed
qed

lemma stopConversation_waits:
  "sessionPromiseRef s = Some Pending \<Longrightarrow>
     stopConversation s = AwaitingSession (s\<lparr>status := PROCESSING\<rparr>)"
  by (simp add: stopConversation_def)

text \<open>
  A waiting teardown resumed on any state whose ref still holds the promise it waits
  for.
\<close>

lemma stopConversation_resume_result:
  assumes "sessionPromiseRef s = Some Pending"
  shows "\<exists>s'. stopConversation_resume outcome s = Inr s' \<and>
     effects s' = effects s @ teardown (sessionSettles outcome s) \<and>
     sessionPromiseRef s' =
       (case outcome of Rejected e \<Rightarrow> Some (SettledWith (Rejected e)) | Fulfilled x \<Rightarrow> None) \<and>
     microphoneStreamRef s' = None \<and> scriptProcessorRef s' = None \<and>
     inputAudioContextRef s' =
       (case inputAudioContextRef s of
          Some ctx \<Rightarrow> if ctx \<noteq> closed then None else Some ctx | None \<Rightarrow> None) \<and>
     outputAudioContextRef s' =
       (case outputAudioContextRef s of
          Some ctx \<Rightarrow> if ctx \<noteq> closed then None else Some ctx | None \<Rightarrow> None) \<and>
     currentInputTranscriptionRef s' = [] \<and> currentOutputTranscriptionRef s' = [] \<and>
     nextStartTimeRef s' = 0 \<and> status s' = IDLE \<and>
     transcript s' = transcript s \<and> error s' = error s"
  using assms releaseRest_result [of "closeSession outcome (sessionSettles outcome s)"]
  by (cases outcome)
    (auto simp add: stopConversation_resume_def teardown_def sessionRelease_def
      cong: option.case_cong if_cong)

lemma released_held:
  assumes "sessionPromiseRef s' = None \<or> (\<exists>e. sessionPromiseRef s' = Some (SettledWith (Rejected e)))"
    "microphoneStreamRef s' = None" "scriptProcessorRef s' = None"
    "inputAudioContextRef s' = None \<or> inputAudioContextRef s' = Some closed"
    "outputAudioContextRef s' = None \<or> outputAudioContextRef s' = Some closed"
  shows "held s' = []"
  using assms by (auto simp add: held_def)

lemma closed_or_none:
  "(case r of Some ctx \<Rightarrow> if ctx \<noteq> closed then None else Some ctx | None \<Rightarrow> None) = None \<or>
   (case r of Some ctx \<Rightarrow> if ctx \<noteq> closed then None else Some ctx | None \<Rightarrow> None) = Some closed"
  by (simp split: option.splits)

lemma rejected_or_none:
  "(case r of Some (SettledWith (Rejected e)) \<Rightarrow> Some (SettledWith (Rejected e)) | _ \<Rightarrow> None) = None \<or>
   (\<exists>e. (case r of Some (SettledWith (Rejected e)) \<Rightarrow> Some (SettledWith (Rejected e)) | _ \<Rightarrow> None) =
      Some (SettledWith (Rejected e)))"
  by (simp split: option.splits promise.splits settled.splits)

lemma stopConversation_held:
  "afterSettling outcome (stopConversation s) = Inr s' \<Longrightarrow> held s' = []"
  using stopConversation_result [of outcome s]
    closed_or_none [of "inputAudioContextRef s"] closed_or_none [of "outputAudioContextRef s"]
    rejected_or_none [of "sessionPromiseRef (sessionSettles outcome s)"]
  by (auto intro!: released_held)

lemma stopConversation_resume_held:
  "sessionPromiseRef s = Some Pending \<Longrightarrow> stopConversation_resume outcome s = Inr s' \<Longrightarrow>
     held s' = []"
  using stopConversation_resume_result [of s outcome]
    closed_or_none [of "inputAudioContextRef s"] closed_or_none [of "outputAudioContextRef s"]
  by (cases outcome) (auto intro!: released_held)

lemma held_teardown: "held s = [] \<Longrightarrow> teardown s = []"
  by (auto simp add: held_def teardown_def restRelease_def sessionRelease_def
      microphoneRelease_def processorRelease_def inputRelease_def outputRelease_def
      split: option.splits promise.splits settled.splits if_splits)


lemma stopConversation_idem:
  assumes "afterSettling outcome (stopConversation s) = Inr s'"
  shows "stopConversation s' = Finished (Inr s')"
proof -
  from stopConversation_result [of outcome s] assms
  have first: "sessionPromiseRef s' =
       (case sessionPromiseRef (sessionSettles outcome s) of
          Some (SettledWith (Rejected e)) \<Rightarrow> Some (SettledWith (Rejected e)) | _ \<Rightarrow> None)"
    "microphoneStreamRef s' = None" "scriptProcessorRef s' = None"
    "inputAudioContextRef s' =
       (case inputAudioContextRef s of
          Some ctx \<Rightarrow> if ctx \<noteq> closed then None else Some ctx | None \<Rightarrow> None)"
    "outputAudioContextRef s' =
       (case outputAudioContextRef s of
          Some ctx \<Rightarrow> if ctx \<noteq> closed then None else Some ctx | None \<Rightarrow> None)"
    "currentInputTranscriptionRef s' = []" "currentOutputTranscriptionRef s' = []"
    "nextStartTimeRef s' = 0" "status s' = IDLE"
    by auto
  from first(1)
  have settled: "sessionPromiseRef s' \<noteq> Some Pending"
    by (simp split: option.splits promise.splits settled.splits)
  have none: "teardown s' = []"
    using assms by (simp add: stopConversation_held held_teardown)
  from stopConversation_result [of outcome s'] settled obtain s'' where
    second: "stopConversation s' = Finished (Inr s'')"
      "effects s'' = effects s' @ teardown s'"
      "sessionPromiseRef s'' =
         (case sessionPromiseRef s' of
            Some (SettledWith (Rejected e)) \<Rightarrow> Some (SettledWith (Rejected e)) | _ \<Rightarrow> None)"
      "microphoneStreamRef s'' = None" "scriptProcessorRef s'' = None"
      "inputAudioContextRef s'' =
         (case inputAudioContextRef s' of
            Some ctx \<Rightarrow> if ctx \<noteq> closed then None else Some ctx | None \<Rightarrow> None)"
      "outputAudioContextRef s'' =
         (case outputAudioContextRef s' of
            Some ctx \<Rightarrow> if ctx \<noteq> closed then None else Some ctx | None \<Rightarrow> None)"
      "playingSourcesRef s'' =
         (case outputAudioContextRef s' of
            Some ctx \<Rightarrow> if ctx \<noteq> closed then [] else playingSourcesRef s'
          | None \<Rightarrow> playingSourcesRef s')"
      "currentInputTranscriptionRef s'' = []" "currentOutputTranscriptionRef s'' = []"
      "nextStartTimeRef s'' = 0" "status s'' = IDLE"
      "transcript s'' = transcript s'" "error s'' = error s'" "created s'' = created s'"
    by auto
  have "s'' = s'"
    by (rule app.equality)
      (simp_all add: first second none split: option.splits promise.splits settled.splits)
  with second(1) show ?thesis by simp
qed

lemma sorted_map_const: "\<forall>x\<in>set xs. f x = c \<Longrightarrow> sorted (map f xs)"
  by (induction xs) auto

lemma release_steps:
  "\<forall>e\<in>set (sessionRelease s). releaseStep e = 1"
  "\<forall>e\<in>set (microphoneRelease s). releaseStep e = 2"
  "\<forall>e\<in>set (processorRelease s). releaseStep e = 3"
  "\<forall>e\<in>set (inputRelease s). releaseStep e = 4"
  "\<forall>e\<in>set (outputRelease s). releaseStep e = 5 \<or> releaseStep e = 6"
  by (auto simp add: sessionRelease_def microphoneRelease_def processorRelease_def
      inputRelease_def outputRelease_def split: option.splits promise.splits settled.splits)

lemma outputRelease_sorted: "sorted (map releaseStep (outputRelease s))"
  by (auto simp add: outputRelease_def sorted_append intro: sorted_map_const split: option.splits)

lemma teardown_sorted: "sorted (map releaseStep (teardown s))"
  using release_steps [of s] outputRelease_sorted [of s]
  by (fastforce simp add: teardown_def restRelease_def sorted_append intro: sorted_map_const)

lemmas teardown_defs = teardown_def restRelease_def sessionRelease_def microphoneRelease_def
  processorRelease_def inputRelease_def outputRelease_def

lemma connecting_reached:
  "startConversation goodEnvironment initial = Finished (Inr connecting)"
  by (simp add: startConversation_def acquire_def goodEnvironment_def initial_def
      resetForStart_def call_def connecting_def)

lemma listening_reached:
  "onopen (sessionSettles (Fulfilled LiveSession) connecting) = listening"
  by (simp add: sessionSettles_def onopen_def connecting_def listening_def initial_def)

lemma startFailed_result:
  "\<exists>s'. afterSettling outcome (startFailed err s) = Inr s' \<and>
     (sessionPromiseRef s \<noteq> Some Pending \<longrightarrow> startFailed err s = Finished (Inr s')) \<and>
     error s' = Some (if message err \<noteq> [] then message err
                      else ''An unexpected error occurred.'') \<and>
     status s' = IDLE \<and> held s' = [] \<and> transcript s' = transcript s \<and>
     effects s' = effects s @ teardown (sessionSettles outcome s)"
proof -
  let ?s = "s\<lparr>error := Some (if message err \<noteq> [] then message err
                                else ''An unexpected error occurred.'')\<rparr>"
  from stopConversation_result [of outcome ?s] obtain s' where
    r: "afterSettling outcome (stopConversation ?s) = Inr s'"
      "sessionPromiseRef ?s \<noteq> Some Pending \<longrightarrow> stopConversation ?s = Finished (Inr s')"
      "effects s' = effects ?s @ teardown (sessionSettles outcome ?s)"
      "status s' = IDLE" "transcript s' = transcript ?s" "error s' = error ?s"
    by blast
  from r(1) have "held s' = []" by (rule stopConversation_held)
  with r show ?thesis by (simp add: startFailed_def)
qed

lemma onerror_result:
  "\<exists>s'. afterSettling outcome (onerror e s) = Inr s' \<and>
     (sessionPromiseRef s \<noteq> Some Pending \<longrightarrow> onerror e s = Finished (Inr s')) \<and>
     error s' = Some (''Connection error: '' @ message e) \<and>
     status s' = IDLE \<and> held s' = [] \<and> transcript s' = transcript s \<and>
     effects s' = effects s @ teardown (sessionSettles outcome s) \<and>
     currentInputTranscriptionRef s' = [] \<and> currentOutputTranscriptionRef s' = [] \<and>
     nextStartTimeRef s' = 0"
proof -
  let ?s = "s\<lparr>error := Some (''Connection error: '' @ message e)\<rparr>"
  from stopConversation_result [of outcome ?s] obtain s' where
    r: "afterSettling outcome (stopConversation ?s) = Inr s'"
      "sessionPromiseRef ?s \<noteq> Some Pending \<longrightarrow> stopConversation ?s = Finished (Inr s')"
      "effects s' = effects ?s @ teardown (sessionSettles outcome ?s)"
      "status s' = IDLE" "transcript s' = transcript ?s" "error s' = error ?s"
      "currentInputTranscriptionRef s' = []" "currentOutputTranscriptionRef s' = []"
      "nextStartTimeRef s' = 0"
    by blast
  from r(1) have "held s' = []" by (rule stopConversation_held)
  with r show ?thesis by (simp add: onerror_def)
qed

lemma acquire_no_key:
  "API_KEY env = None \<or> API_KEY env = Some [] \<Longrightarrow>
     acquire env s =
       startFailed (JsError ''Error'' ''API_KEY environment variable not set.'') s"
  by (auto simp add: acquire_def)

lemma acquire_denied:
  "\<not> (API_KEY env = None \<or> API_KEY env = Some []) \<Longrightarrow> getUserMedia env = Rejected err \<Longrightarrow>
     acquire env s = startFailed err (call [GetUserMedia] s)"
  by (auto simp add: acquire_def)

lemma acquire_no_context:
  "\<not> (API_KEY env = None \<or> API_KEY env = Some []) \<Longrightarrow>
   getUserMedia env = Fulfilled stream \<Longrightarrow> \<not> hasAudioContext env \<Longrightarrow>
     acquire env s =
       startFailed (JsError ''TypeError'' ''CrossBrowserAudioContext is not a constructor'')
         ((call [GetUserMedia] s)\<lparr>microphoneStreamRef := Some stream\<rparr>)"
  by (auto simp add: acquire_def Let_def)

lemma acquire_connects:
  "\<not> (API_KEY env = None \<or> API_KEY env = Some []) \<Longrightarrow>
   getUserMedia env = Fulfilled stream \<Longrightarrow> hasAudioContext env \<Longrightarrow>
     acquire env s =
       Finished (Inr
         ((call [NewAudioContext 16000, NewAudioContext 24000, LiveConnect]
             ((call [GetUserMedia] s)\<lparr>microphoneStreamRef := Some stream\<rparr>))
          \<lparr>inputAudioContextRef := Some running, outputAudioContextRef := Some running,
           sessionPromiseRef := Some Pending\<rparr>))"
  by (auto simp add: acquire_def Let_def)

lemma acquire_cases:
  obtains (no_key) "API_KEY env = None \<or> API_KEY env = Some []"
  | (denied) err where "\<not> (API_KEY env = None \<or> API_KEY env = Some [])"
      "getUserMedia env = Rejected err"
  | (no_context) stream where "\<not> (API_KEY env = None \<or> API_KEY env = Some [])"
      "getUserMedia env = Fulfilled stream" "\<not> hasAudioContext env"
  | (connects) stream where "\<not> (API_KEY env = None \<or> API_KEY env = Some [])"
      "getUserMedia env = Fulfilled stream" "hasAudioContext env"
  by (cases "getUserMedia env") blast+

lemma pending_call [simp]:
  "sessionPromiseRef (call es s) = sessionPromiseRef s"
  "transcript (call es s) = transcript s"
  by (simp_all add: call_def)

lemma acquire_transcript:
  "\<exists>s'. afterSettling outcome (acquire env s) = Inr s' \<and>
     (sessionPromiseRef s \<noteq> Some Pending \<longrightarrow> acquire env s = Finished (Inr s')) \<and>
     transcript s' = transcript s"
proof (cases env rule: acquire_cases)
  case no_key
  then show ?thesis
    using startFailed_result
      [of outcome "JsError ''Error'' ''API_KEY environment variable not set.''" s]
    by (auto simp add: acquire_no_key)
next
  case (denied err)
  then show ?thesis
    using startFailed_result [of outcome err "call [GetUserMedia] s"]
    by (auto simp add: acquire_denied)
next
  case (no_context stream)
  then show ?thesis
    using startFailed_result
      [of outcome "JsError ''TypeError'' ''CrossBrowserAudioContext is not a constructor''"
          "(call [GetUserMedia] s)\<lparr>microphoneStreamRef := Some stream\<rparr>"]
    by (auto simp add: acquire_no_context)
next
  case (connects stream)
  then show ?thesis
    by (simp add: acquire_connects afterSettling_def)
qed

lemma acquire_failure:
  assumes "API_KEY env = None \<or> API_KEY env = Some [] \<or>
           (\<exists>err. getUserMedia env = Rejected err) \<or> \<not> hasAudioContext env"
  shows "\<exists>s' msg. afterSettling outcome (acquire env s) = Inr s' \<and>
           (sessionPromiseRef s \<noteq> Some Pending \<longrightarrow> acquire env s = Finished (Inr s')) \<and>
           error s' = Some msg \<and> msg \<noteq> [] \<and>
           status s' = IDLE \<and> held s' = [] \<and> transcript s' = transcript s"
proof (cases env rule: acquire_cases)
  case no_key
  then show ?thesis
    using startFailed_result
      [of outcome "JsError ''Error'' ''API_KEY environment variable not set.''" s]
    by (auto simp add: acquire_no_key)
next
  case (denied err)
  then show ?thesis
    using startFailed_result [of outcome err "call [GetUserMedia] s"]
    by (auto simp add: acquire_denied)
next
  case (no_context stream)
  then show ?thesis
    using startFailed_result
      [of outcome "JsError ''TypeError'' ''CrossBrowserAudioContext is not a constructor''"
          "(call [GetUserMedia] s)\<lparr>microphoneStreamRef := Some stream\<rparr>"]
    by (auto simp add: acquire_no_context)
next
  case (connects stream)
  with assms show ?thesis by auto
qed


text \<open>
  C5, as amended. Once the session promise awaited at line 34 is absent or has settled,
  every \<open>stopConversation\<close>, and every teardown the \<open>onerror\<close> callback starts, runs to
  its end and makes exactly the release calls of \<open>teardown\<close>: close the transport
  session, stop the microphone tracks, disconnect the capture node, close the input
  context, stop the playing sources and close the output context, in this order (the
  positions of the calls made are non-decreasing). Afterwards both transcript buffers are
  empty, the cursor is 0, the status is \<open>IDLE\<close> and no resource is held. With the session
  promise absent or settled the call finishes at once. With the promise pending the call
  waits at line 34, having set the status to \<open>PROCESSING\<close> and released nothing, and the
  same holds of its resumption when the promise settles, on any state whose ref still
  holds that promise.
\<close>

theorem stopConversation_teardown:
  "(\<exists>s'. afterSettling outcome (stopConversation s) = Inr s' \<and>
          (sessionPromiseRef s \<noteq> Some Pending \<longrightarrow> stopConversation s = Finished (Inr s')) \<and>
          effects s' = effects s @ teardown (sessionSettles outcome s) \<and>
          held s' = [] \<and> currentInputTranscriptionRef s' = [] \<and>
          currentOutputTranscriptionRef s' = [] \<and> nextStartTimeRef s' = 0 \<and>
          status s' = IDLE) \<and>
   (\<exists>s'. afterSettling outcome (onerror e s) = Inr s' \<and>
          (sessionPromiseRef s \<noteq> Some Pending \<longrightarrow> onerror e s = Finished (Inr s')) \<and>
          effects s' = effects s @ teardown (sessionSettles outcome s) \<and>
          held s' = [] \<and> currentInputTranscriptionRef s' = [] \<and>
          currentOutputTranscriptionRef s' = [] \<and> nextStartTimeRef s' = 0 \<and>
          status s' = IDLE) \<and>
   (sessionPromiseRef s = Some Pending \<longrightarrow>
      stopConversation s = AwaitingSession (s\<lparr>status := PROCESSING\<rparr>) \<and>
      (\<exists>s'. stopConversation_resume outcome s = Inr s' \<and>
          effects s' = effects s @ teardown (sessionSettles outcome s) \<and>
          held s' = [] \<and> currentInputTranscriptionRef s' = [] \<and>
          currentOutputTranscriptionRef s' = [] \<and> nextStartTimeRef s' = 0 \<and>
          status s' = IDLE)) \<and>
   sorted (map releaseStep (teardown (sessionSettles outcome s)))"
proof -
  from stopConversation_result [of outcome s] obtain s' where
    r: "afterSettling outcome (stopConversation s) = Inr s'"
      "sessionPromiseRef s \<noteq> Some Pending \<longrightarrow> stopConversation s = Finished (Inr s')"
      "effects s' = effects s @ teardown (sessionSettles outcome s)"
      "currentInputTranscriptionRef s' = []" "currentOutputTranscriptionRef s' = []"
      "nextStartTimeRef s' = 0" "status s' = IDLE"
    by blast
  from r(1) have "held s' = []" by (rule stopConversation_held)
  with r have stop: "\<exists>s'. afterSettling outcome (stopConversation s) = Inr s' \<and>
          (sessionPromiseRef s \<noteq> Some Pending \<longrightarrow> stopConversation s = Finished (Inr s')) \<and>
          effects s' = effects s @ teardown (sessionSettles outcome s) \<and>
          held s' = [] \<and> currentInputTranscriptionRef s' = [] \<and>
          currentOutputTranscriptionRef s' = [] \<and> nextStartTimeRef s' = 0 \<and>
          status s' = IDLE"
    by blast
  from onerror_result [of outcome e s]
  have err: "\<exists>s'. afterSettling outcome (onerror e s) = Inr s' \<and>
          (sessionPromiseRef s \<noteq> Some Pending \<longrightarrow> onerror e s = Finished (Inr s')) \<and>
          effects s' = effects s @ teardown (sessionSettles outcome s) \<and>
          held s' = [] \<and> currentInputTranscriptionRef s' = [] \<and>
          currentOutputTranscriptionRef s' = [] \<and> nextStartTimeRef s' = 0 \<and>
          status s' = IDLE"
    by blast
  have wait: "sessionPromiseRef s = Some Pending \<longrightarrow>
      stopConversation s = AwaitingSession (s\<lparr>status := PROCESSING\<rparr>) \<and>
      (\<exists>s'. stopConversation_resume outcome s = Inr s' \<and>
          effects s' = effects s @ teardown (sessionSettles outcome s) \<and>
          held s' = [] \<and> currentInputTranscriptionRef s' = [] \<and>
          currentOutputTranscriptionRef s' = [] \<and> nextStartTimeRef s' = 0 \<and>
          status s' = IDLE)"
  proof
    assume p: "sessionPromiseRef s = Some Pending"
    from stopConversation_resume_result [OF p, of outcome] obtain s' where
      q: "stopConversation_resume outcome s = Inr s'"
        "effects s' = effects s @ teardown (sessionSettles outcome s)"
        "currentInputTranscriptionRef s' = []" "currentOutputTranscriptionRef s' = []"
        "nextStartTimeRef s' = 0" "status s' = IDLE"
      by blast
    from p q(1) have "held s' = []" by (rule stopConversation_resume_held)
    with q p show "stopConversation s = AwaitingSession (s\<lparr>status := PROCESSING\<rparr>) \<and>
      (\<exists>s'. stopConversation_resume outcome s = Inr s' \<and>
          effects s' = effects s @ teardown (sessionSettles outcome s) \<and>
          held s' = [] \<and> currentInputTranscriptionRef s' = [] \<and>
          currentOutputTranscriptionRef s' = [] \<and> nextStartTimeRef s' = 0 \<and>
          status s' = IDLE)"
      by (simp add: stopConversation_waits)
  qed
  from stop err wait teardown_sorted [of "sessionSettles outcome s"] show ?thesis
    by (intro conjI)
qed

theorem stopConversation_teardown_witness:
  "(\<exists>s'. stopConversation playing = Finished (Inr s') \<and>
     effects s' = effects playing @
       [SessionClose, TrackStop 0, ProcessorDisconnect, InputContextClose,
        SourceStop \<lparr>node = 0, buffer = chunk\<rparr>, OutputContextClose] \<and>
     held s' = [] \<and> nextStartTimeRef s' = 0 \<and> status s' = IDLE) \<and>
   (\<exists>s'. stopConversation_resume (Fulfilled LiveSession) connecting = Inr s' \<and>
     effects s' = effects connecting @
       [SessionClose, TrackStop 0, InputContextClose, OutputContextClose] \<and>
     held s' = [] \<and> status s' = IDLE)"
proof -
  have settled: "sessionPromiseRef playing \<noteq> Some Pending"
    and pending: "sessionPromiseRef connecting = Some Pending"
    by (simp_all add: playing_def listening_def connecting_def initial_def)
  have calls: "teardown playing =
      [SessionClose, TrackStop 0, ProcessorDisconnect, InputContextClose,
       SourceStop \<lparr>node = 0, buffer = chunk\<rparr>, OutputContextClose]"
    "teardown (sessionSettles (Fulfilled LiveSession) connecting) =
      [SessionClose, TrackStop 0, InputContextClose, OutputContextClose]"
    by (simp_all add: teardown_defs sessionSettles_def playing_def listening_def
        connecting_def initial_def)
  from stopConversation_teardown [of "Fulfilled LiveSession" playing "JsError ''Error'' ''closed''"]
    settled
  have one: "\<exists>s'. stopConversation playing = Finished (Inr s') \<and>
     effects s' = effects playing @ teardown playing \<and>
     held s' = [] \<and> nextStartTimeRef s' = 0 \<and> status s' = IDLE"
    by auto
  from stopConversation_teardown
    [of "Fulfilled LiveSession" connecting "JsError ''Error'' ''closed''"] pending
  have two: "\<exists>s'. stopConversation_resume (Fulfilled LiveSession) connecting = Inr s' \<and>
     effects s' = effects connecting @
       teardown (sessionSettles (Fulfilled LiveSession) connecting) \<and>
     held s' = [] \<and> status s' = IDLE"
    by auto
  from one two show ?thesis by (simp only: calls simp_thms)
qed

theorem stopConversation_waits_counterexample:
  "startConversation goodEnvironment initial = Finished (Inr connecting) \<and>
   stopConversation connecting = AwaitingSession connecting \<and>
   status connecting = PROCESSING \<and>
   held connecting = [Microphone, InputContext, OutputContext] \<and>
   effects connecting =
     [GetUserMedia, NewAudioContext 16000, NewAudioContext 24000, LiveConnect]"
  by (simp add: connecting_reached)
    (simp add: stopConversation_def held_def connecting_def initial_def)

text \<open>
  C6. \<open>stopConversation\<close> is idempotent and safe in every state: a call carried to its
  end succeeds from any state, at once unless the session promise is pending, and a
  second call right after it finishes at once, succeeds and returns the very state the
  first call left, so it makes no release call at all (the effects are part of the
  state); in that state no resource is held and no guarded step has anything to release.
\<close>

theorem stopConversation_idempotent:
  "\<exists>s'. afterSettling outcome (stopConversation s) = Inr s' \<and>
        (sessionPromiseRef s \<noteq> Some Pending \<longrightarrow> stopConversation s = Finished (Inr s')) \<and>
        stopConversation s' = Finished (Inr s') \<and>
        teardown s' = [] \<and> held s' = [] \<and> status s' = IDLE"
proof -
  from stopConversation_result [of outcome s] obtain s' where
    r: "afterSettling outcome (stopConversation s) = Inr s'"
      "sessionPromiseRef s \<noteq> Some Pending \<longrightarrow> stopConversation s = Finished (Inr s')"
      "status s' = IDLE"
    by blast
  from r(1) have "stopConversation s' = Finished (Inr s')" by (rule stopConversation_idem)
  moreover from r(1) have h: "held s' = []" by (rule stopConversation_held)
  moreover from h have "teardown s' = []" by (rule held_teardown)
  ultimately show ?thesis using r by blast
qed

theorem stopConversation_idempotent_witness:
  "\<exists>s'. stopConversation playing = Finished (Inr s') \<and>
     stopConversation s' = Finished (Inr s') \<and> teardown s' = [] \<and> status s' = IDLE"
proof -
  have "sessionPromiseRef playing \<noteq> Some Pending"
    by (simp add: playing_def listening_def initial_def)
  with stopConversation_idempotent [of "Fulfilled LiveSession" playing] show ?thesis
    by blast
qed

text \<open>
  C7. \<open>startConversation\<close> called while the status is not \<open>IDLE\<close> is a silent no-op: it
  returns the state as it is, with no call made on anything outside (no microphone, no
  audio context, no second transport) and no error.
\<close>

theorem startConversation_guard:
  "status s \<noteq> IDLE \<Longrightarrow> startConversation env s = Finished (Inr s)"
  by (simp add: startConversation_def)

theorem startConversation_guard_witness:
  "status listening \<noteq> IDLE \<and>
   startConversation goodEnvironment listening = Finished (Inr listening)"
proof -
  have h: "status listening \<noteq> IDLE" by (simp add: listening_def initial_def)
  from startConversation_guard [OF h, of goodEnvironment] h show ?thesis by simp
qed


text \<open>
  C8, as amended. A transport error reported through \<open>onerror\<close> surfaces the message
  \<open>Connection error: \<close> followed by the error's message and runs \<open>stopConversation\<close>;
  the \<open>catch\<close> block of \<open>startConversation\<close> surfaces the error's message, or a fixed
  one when that is empty, and runs \<open>stopConversation\<close>. Once the session promise is
  absent or has settled (at once when it is not pending), either ends with the status
  \<open>IDLE\<close>, nothing held, exactly the release calls of the teardown made, and the
  transcript as it was when the handler began. A \<open>startConversation\<close> from \<open>IDLE\<close> that
  fails before the call of \<open>connect\<close> (no API key, \<open>getUserMedia\<close> rejected, no
  \<open>AudioContext\<close> constructor) runs that \<open>catch\<close> block on the state reached, and ends
  with a message that is not empty, the status \<open>IDLE\<close>, nothing held and an empty
  transcript: the entries of an earlier session were removed at line 78, before the
  failure.
\<close>

theorem abort_surfaces_message:
  "(\<exists>s'. afterSettling outcome (onerror e s) = Inr s' \<and>
      (sessionPromiseRef s \<noteq> Some Pending \<longrightarrow> onerror e s = Finished (Inr s')) \<and>
      error s' = Some (''Connection error: '' @ message e) \<and>
      status s' = IDLE \<and> held s' = [] \<and>
      effects s' = effects s @ teardown (sessionSettles outcome s) \<and>
      transcript s' = transcript s) \<and>
   (\<exists>s'. afterSettling outcome (startFailed err s) = Inr s' \<and>
      (sessionPromiseRef s \<noteq> Some Pending \<longrightarrow> startFailed err s = Finished (Inr s')) \<and>
      error s' = Some (if message err \<noteq> [] then message err
                       else ''An unexpected error occurred.'') \<and>
      status s' = IDLE \<and> held s' = [] \<and>
      effects s' = effects s @ teardown (sessionSettles outcome s) \<and>
      transcript s' = transcript s) \<and>
   (status s = IDLE \<and> (API_KEY env = None \<or> API_KEY env = Some []) \<longrightarrow>
      startConversation env s =
        startFailed (JsError ''Error'' ''API_KEY environment variable not set.'')
          (resetForStart s)) \<and>
   (status s = IDLE \<and> \<not> (API_KEY env = None \<or> API_KEY env = Some []) \<and>
    getUserMedia env = Rejected err \<longrightarrow>
      startConversation env s = startFailed err (call [GetUserMedia] (resetForStart s))) \<and>
   (status s = IDLE \<and> \<not> (API_KEY env = None \<or> API_KEY env = Some []) \<and>
    getUserMedia env = Fulfilled stream \<and> \<not> hasAudioContext env \<longrightarrow>
      startConversation env s =
        startFailed (JsError ''TypeError'' ''CrossBrowserAudioContext is not a constructor'')
          ((call [GetUserMedia] (resetForStart s))\<lparr>microphoneStreamRef := Some stream\<rparr>)) \<and>
   (status s = IDLE \<and>
    (API_KEY env = None \<or> API_KEY env = Some [] \<or>
     (\<exists>err. getUserMedia env = Rejected err) \<or> \<not> hasAudioContext env) \<longrightarrow>
      (\<exists>s' msg. afterSettling outcome (startConversation env s) = Inr s' \<and>
         (sessionPromiseRef s \<noteq> Some Pending \<longrightarrow>
            startConversation env s = Finished (Inr s')) \<and>
         error s' = Some msg \<and> msg \<noteq> [] \<and> status s' = IDLE \<and> held s' = [] \<and>
         transcript s' = []))"
proof -
  from onerror_result [of outcome e s]
  have one: "\<exists>s'. afterSettling outcome (onerror e s) = Inr s' \<and>
      (sessionPromiseRef s \<noteq> Some Pending \<longrightarrow> onerror e s = Finished (Inr s')) \<and>
      error s' = Some (''Connection error: '' @ message e) \<and>
      status s' = IDLE \<and> held s' = [] \<and>
      effects s' = effects s @ teardown (sessionSettles outcome s) \<and>
      transcript s' = transcript s"
    by blast
  from startFailed_result [of outcome err s]
  have two: "\<exists>s'. afterSettling outcome (startFailed err s) = Inr s' \<and>
      (sessionPromiseRef s \<noteq> Some Pending \<longrightarrow> startFailed err s = Finished (Inr s')) \<and>
      error s' = Some (if message err \<noteq> [] then message err
                       else ''An unexpected error occurred.'') \<and>
      status s' = IDLE \<and> held s' = [] \<and>
      effects s' = effects s @ teardown (sessionSettles outcome s) \<and>
      transcript s' = transcript s"
    by blast
  have three: "status s = IDLE \<and> (API_KEY env = None \<or> API_KEY env = Some []) \<longrightarrow>
      startConversation env s =
        startFailed (JsError ''Error'' ''API_KEY environment variable not set.'')
          (resetForStart s)"
    by (simp add: startConversation_def acquire_no_key)
  have four: "status s = IDLE \<and> \<not> (API_KEY env = None \<or> API_KEY env = Some []) \<and>
    getUserMedia env = Rejected err \<longrightarrow>
      startConversation env s = startFailed err (call [GetUserMedia] (resetForStart s))"
    by (simp add: startConversation_def acquire_denied)
  have five: "status s = IDLE \<and> \<not> (API_KEY env = None \<or> API_KEY env = Some []) \<and>
    getUserMedia env = Fulfilled stream \<and> \<not> hasAudioContext env \<longrightarrow>
      startConversation env s =
        startFailed (JsError ''TypeError'' ''CrossBrowserAudioContext is not a constructor'')
          ((call [GetUserMedia] (resetForStart s))\<lparr>microphoneStreamRef := Some stream\<rparr>)"
    by (simp add: startConversation_def acquire_no_context)
  have six: "status s = IDLE \<and>
    (API_KEY env = None \<or> API_KEY env = Some [] \<or>
     (\<exists>err. getUserMedia env = Rejected err) \<or> \<not> hasAudioContext env) \<longrightarrow>
      (\<exists>s' msg. afterSettling outcome (startConversation env s) = Inr s' \<and>
         (sessionPromiseRef s \<noteq> Some Pending \<longrightarrow>
            startConversation env s = Finished (Inr s')) \<and>
         error s' = Some msg \<and> msg \<noteq> [] \<and> status s' = IDLE \<and> held s' = [] \<and>
         transcript s' = [])"
  proof
    assume a: "status s = IDLE \<and>
      (API_KEY env = None \<or> API_KEY env = Some [] \<or>
       (\<exists>err. getUserMedia env = Rejected err) \<or> \<not> hasAudioContext env)"
    then have "API_KEY env = None \<or> API_KEY env = Some [] \<or>
       (\<exists>err. getUserMedia env = Rejected err) \<or> \<not> hasAudioContext env"
      by simp
    from acquire_failure [OF this, of outcome "resetForStart s"] a
    show "\<exists>s' msg. afterSettling outcome (startConversation env s) = Inr s' \<and>
         (sessionPromiseRef s \<noteq> Some Pending \<longrightarrow>
            startConversation env s = Finished (Inr s')) \<and>
         error s' = Some msg \<and> msg \<noteq> [] \<and> status s' = IDLE \<and> held s' = [] \<and>
         transcript s' = []"
      by (simp add: startConversation_def resetForStart_def)
  qed
  from one two three four five six show ?thesis by (intro conjI)
qed

theorem abort_surfaces_message_witness:
  "(\<exists>s'. onerror (JsError ''Error'' ''socket closed'') talked = Finished (Inr s') \<and>
      error s' = Some ''Connection error: socket closed'' \<and> status s' = IDLE \<and>
      held s' = [] \<and>
      effects s' = effects talked @
        [SessionClose, TrackStop 0, ProcessorDisconnect, InputContextClose,
         OutputContextClose] \<and>
      transcript s' = [\<lparr>speaker = user, text = ''hello''\<rparr>, \<lparr>speaker = gemini, text = ''hi''\<rparr>]) \<and>
   (\<exists>s' msg. startConversation deniedEnvironment finished = Finished (Inr s') \<and>
      error s' = Some msg \<and> msg \<noteq> [] \<and> status s' = IDLE \<and> held s' = [] \<and>
      transcript s' = [])"
proof -
  have settled: "sessionPromiseRef talked \<noteq> Some Pending"
    "sessionPromiseRef finished \<noteq> Some Pending"
    and idle: "status finished = IDLE"
    and denied: "\<exists>err. getUserMedia deniedEnvironment = Rejected err"
    by (simp_all add: talked_def listening_def finished_def initial_def
        deniedEnvironment_def goodEnvironment_def)
  have calls: "teardown talked =
      [SessionClose, TrackStop 0, ProcessorDisconnect, InputContextClose, OutputContextClose]"
    and entries: "transcript talked =
      [\<lparr>speaker = user, text = ''hello''\<rparr>, \<lparr>speaker = gemini, text = ''hi''\<rparr>]"
    by (simp_all add: teardown_defs talked_def listening_def initial_def)
  from abort_surfaces_message
    [of "Fulfilled LiveSession" "JsError ''Error'' ''socket closed''" talked
        "JsError ''Error'' ''x''" goodEnvironment "\<lparr>getTracks = []\<rparr>"]
    settled(1)
  have one: "\<exists>s'. onerror (JsError ''Error'' ''socket closed'') talked = Finished (Inr s') \<and>
      error s' = Some (''Connection error: '' @ message (JsError ''Error'' ''socket closed'')) \<and>
      status s' = IDLE \<and> held s' = [] \<and>
      effects s' = effects talked @ teardown talked \<and> transcript s' = transcript talked"
    by auto
  from abort_surfaces_message
    [of "Fulfilled LiveSession" "JsError ''Error'' ''socket closed''" finished
        "JsError ''Error'' ''x''" deniedEnvironment "\<lparr>getTracks = []\<rparr>"]
    settled(2) idle denied
  have two: "\<exists>s' msg. startConversation deniedEnvironment finished = Finished (Inr s') \<and>
      error s' = Some msg \<and> msg \<noteq> [] \<and> status s' = IDLE \<and> held s' = [] \<and>
      transcript s' = []"
    by auto
  from one two show ?thesis by (simp add: calls entries)
qed

theorem abort_counterexample:
  "startConversation goodEnvironment initial = Finished (Inr connecting) \<and>
   onerror (JsError ''Error'' ''socket closed'') connecting =
     AwaitingSession (connecting\<lparr>error := Some ''Connection error: socket closed''\<rparr>) \<and>
   status (connecting\<lparr>error := Some ''Connection error: socket closed''\<rparr>) = PROCESSING \<and>
   held (connecting\<lparr>error := Some ''Connection error: socket closed''\<rparr>) =
     [Microphone, InputContext, OutputContext] \<and>
   error (sessionSettles (Rejected (JsError ''Error'' ''connect failed'')) connecting) = None \<and>
   status (sessionSettles (Rejected (JsError ''Error'' ''connect failed'')) connecting) =
     PROCESSING \<and>
   held (sessionSettles (Rejected (JsError ''Error'' ''connect failed'')) connecting) =
     [Microphone, InputContext, OutputContext] \<and>
   transcript finished =
     [\<lparr>speaker = user, text = ''hello''\<rparr>, \<lparr>speaker = gemini, text = ''hi''\<rparr>] \<and>
   (\<exists>s'. startConversation deniedEnvironment finished = Finished (Inr s') \<and>
      error s' = Some ''Permission denied'' \<and> status s' = IDLE \<and> transcript s' = [])"
proof -
  have "\<exists>s'. startConversation deniedEnvironment finished = Finished (Inr s') \<and>
      error s' = Some ''Permission denied'' \<and> status s' = IDLE \<and> transcript s' = []"
    using startFailed_result
      [of "Fulfilled LiveSession" "JsError ''NotAllowedError'' ''Permission denied''"
          "call [GetUserMedia] (resetForStart finished)"]
    by (auto simp add: startConversation_def acquire_def deniedEnvironment_def
        goodEnvironment_def finished_def initial_def resetForStart_def call_def)
  then show ?thesis
    by (simp add: connecting_reached)
      (simp add: stopConversation_def onerror_def sessionSettles_def held_def
        connecting_def finished_def initial_def)
qed

text \<open>
  C10. \<open>startConversation\<close> called with the status \<open>IDLE\<close> first empties the transcript
  and clears the error message, with no call made on anything outside and nothing
  acquired yet, and only then enters the \<open>try\<close> block; whatever happens there, it ends
  in a state whose transcript is empty, at once unless it has to wait for a pending
  session promise in its \<open>catch\<close> block. \<open>stopConversation\<close> keeps the transcript.
\<close>

theorem startConversation_resets:
  assumes "status s = IDLE"
  shows "startConversation env s = acquire env (resetForStart s) \<and>
         transcript (resetForStart s) = [] \<and> error (resetForStart s) = None \<and>
         effects (resetForStart s) = effects s \<and> held (resetForStart s) = held s \<and>
         (\<exists>s'. afterSettling outcome (startConversation env s) = Inr s' \<and>
            (sessionPromiseRef s \<noteq> Some Pending \<longrightarrow>
               startConversation env s = Finished (Inr s')) \<and>
            transcript s' = []) \<and>
         (\<exists>s'. afterSettling outcome (stopConversation s) = Inr s' \<and>
            (sessionPromiseRef s \<noteq> Some Pending \<longrightarrow> stopConversation s = Finished (Inr s')) \<and>
            transcript s' = transcript s)"
proof -
  have "\<exists>s'. afterSettling outcome (stopConversation s) = Inr s' \<and>
            (sessionPromiseRef s \<noteq> Some Pending \<longrightarrow> stopConversation s = Finished (Inr s')) \<and>
            transcript s' = transcript s"
    using stopConversation_result [of outcome s] by blast
  moreover have "\<exists>s'. afterSettling outcome (startConversation env s) = Inr s' \<and>
            (sessionPromiseRef s \<noteq> Some Pending \<longrightarrow>
               startConversation env s = Finished (Inr s')) \<and>
            transcript s' = []"
    using acquire_transcript [of outcome env "resetForStart s"] assms
    by (simp add: startConversation_def resetForStart_def)
  ultimately show ?thesis
    using assms by (simp add: startConversation_def resetForStart_def held_def)
qed

theorem startConversation_resets_witness:
  "status finished = IDLE \<and> transcript finished \<noteq> [] \<and>
   (\<exists>s'. startConversation goodEnvironment finished = Finished (Inr s') \<and>
      transcript s' = []) \<and>
   (\<exists>s'. stopConversation finished = Finished (Inr s') \<and>
      transcript s' = transcript finished)"
proof -
  have h: "status finished = IDLE"
    and settled: "sessionPromiseRef finished \<noteq> Some Pending"
    by (simp_all add: finished_def initial_def)
  from startConversation_resets [OF h, of goodEnvironment "Fulfilled LiveSession"] settled
  have "(\<exists>s'. startConversation goodEnvironment finished = Finished (Inr s') \<and>
          transcript s' = []) \<and>
        (\<exists>s'. stopConversation finished = Finished (Inr s') \<and>
          transcript s' = transcript finished)"
    by blast
  moreover have "transcript finished \<noteq> []" by (simp add: finished_def initial_def)
  ultimately show ?thesis using h by blast
qed

section \<open>The PCM codec: proofs\<close>

lemma base64_value_char: "n < 64 \<Longrightarrow> base64_value (base64_char n) = Some n"
  by (auto simp add: base64_value_def base64_char_def Let_def)

lemma base64_char_not_pad: "n < 64 \<Longrightarrow> base64_char n \<noteq> CHR ''=''"
proof
  assume n: "n < 64" and "base64_char n = CHR ''=''"
  then have "base64_value (base64_char n) = base64_value (CHR ''='')" by simp
  with n show False by (simp add: base64_value_char) (simp add: base64_value_def)
qed

lemma unat_byte: "unat (a :: byte) < 256"
  using unsigned_less [of a, where ?'a = nat] by simp

lemma byte_parts1:
  fixes a b c :: nat
  assumes "a < 256" "b < 256" "c < 256"
  shows "a div 4 < 64" "a mod 4 * 16 < 64" "a mod 4 * 16 + b div 16 < 64"
    "b mod 16 * 4 < 64" "b mod 16 * 4 + c div 64 < 64" "c mod 64 < 64"
  using assms by arith+

lemma byte_parts2:
  fixes a b c :: nat
  shows "a div 4 * 4 + (a mod 4 * 16) div 16 = a"
  by simp

lemma byte_parts3:
  fixes a b c :: nat
  assumes "b < 256"
  shows "a div 4 * 4 + (a mod 4 * 16 + b div 16) div 16 = a"
proof -
  have "b div 16 < 16" using assms by simp
  then have "(a mod 4 * 16 + b div 16) div 16 = a mod 4" by simp
  then show ?thesis by simp
qed

lemma byte_parts4:
  fixes a b c :: nat
  assumes "b < 256" "c < 256"
  shows "(a mod 4 * 16 + b div 16) mod 16 * 16 + (b mod 16 * 4) div 4 = b"
    "(a mod 4 * 16 + b div 16) mod 16 * 16 + (b mod 16 * 4 + c div 64) div 4 = b"
    "(b mod 16 * 4 + c div 64) mod 4 * 64 + c mod 64 = c"
proof -
  have b: "b div 16 < 16" and c: "c div 64 < 4" using assms by simp_all
  from b have hi: "(a mod 4 * 16 + b div 16) mod 16 = b div 16" by simp
  from c have lo: "(b mod 16 * 4 + c div 64) div 4 = b mod 16" by simp
  from c have top: "(b mod 16 * 4 + c div 64) mod 4 = c div 64" by simp
  show "(a mod 4 * 16 + b div 16) mod 16 * 16 + (b mod 16 * 4) div 4 = b"
    unfolding hi by simp
  show "(a mod 4 * 16 + b div 16) mod 16 * 16 + (b mod 16 * 4 + c div 64) div 4 = b"
    unfolding hi lo by simp
  show "(b mod 16 * 4 + c div 64) mod 4 * 64 + c mod 64 = c"
    unfolding top by simp
qed

lemmas byte_parts = byte_parts1 byte_parts2 byte_parts3 byte_parts4

lemma decode_quad:
  assumes "v1 < 64" "v2 < 64" "v3 < 64" "v4 < 64"
  shows "base64_decode (base64_char v1 # base64_char v2 # base64_char v3 # base64_char v4 # rest) =
     (case base64_decode rest of
        Some bytes \<Rightarrow>
          Some (of_nat (v1 * 4 + v2 div 16) # of_nat (v2 mod 16 * 16 + v3 div 4) #
                of_nat (v3 mod 4 * 64 + v4) # bytes)
      | None \<Rightarrow> None)"
  using assms by (simp add: base64_value_char base64_char_not_pad)

lemma decode_pad1:
  assumes "v1 < 64" "v2 < 64" "v3 < 64"
  shows "base64_decode [base64_char v1, base64_char v2, base64_char v3, CHR ''=''] =
     Some [of_nat (v1 * 4 + v2 div 16), of_nat (v2 mod 16 * 16 + v3 div 4)]"
  using assms by (simp add: base64_value_char base64_char_not_pad)

lemma decode_pad2:
  assumes "v1 < 64" "v2 < 64"
  shows "base64_decode [base64_char v1, base64_char v2, CHR ''='', CHR ''=''] =
     Some [of_nat (v1 * 4 + v2 div 16)]"
  using assms by (simp add: base64_value_char)

lemma base64_roundtrip: "base64_decode (base64_encode bytes) = Some bytes"
proof (induction bytes rule: base64_encode.induct)
  case 1
  show ?case by simp
next
  case (2 a)
  note p = byte_parts1 [OF unat_byte [of a] unat_byte [of a] unat_byte [of a]]
  have "base64_decode (base64_encode [a]) =
      Some [of_nat (unat a div 4 * 4 + (unat a mod 4 * 16) div 16)]"
    unfolding base64_encode.simps by (rule decode_pad2) (rule p)+
  also have "unat a div 4 * 4 + (unat a mod 4 * 16) div 16 = unat a" by (rule byte_parts2)
  finally show ?case by simp
next
  case (3 a b)
  note p = byte_parts1 [OF unat_byte [of a] unat_byte [of b] unat_byte [of b]]
  have "base64_decode (base64_encode [a, b]) =
      Some [of_nat (unat a div 4 * 4 + (unat a mod 4 * 16 + unat b div 16) div 16),
            of_nat ((unat a mod 4 * 16 + unat b div 16) mod 16 * 16 + (unat b mod 16 * 4) div 4)]"
    unfolding base64_encode.simps by (rule decode_pad1) (rule p)+
  also have "unat a div 4 * 4 + (unat a mod 4 * 16 + unat b div 16) div 16 = unat a"
    by (rule byte_parts3) (rule unat_byte)
  also have "(unat a mod 4 * 16 + unat b div 16) mod 16 * 16 + (unat b mod 16 * 4) div 4 = unat b"
    by (rule byte_parts4) (rule unat_byte)+
  finally show ?case by simp
next
  case (4 a b c rest)
  note p = byte_parts1 [OF unat_byte [of a] unat_byte [of b] unat_byte [of c]]
  have "base64_decode (base64_encode (a # b # c # rest)) =
      (case base64_decode (base64_encode rest) of
         Some bytes \<Rightarrow>
           Some (of_nat (unat a div 4 * 4 + (unat a mod 4 * 16 + unat b div 16) div 16) #
                 of_nat ((unat a mod 4 * 16 + unat b div 16) mod 16 * 16 +
                         (unat b mod 16 * 4 + unat c div 64) div 4) #
                 of_nat ((unat b mod 16 * 4 + unat c div 64) mod 4 * 64 + unat c mod 64) # bytes)
       | None \<Rightarrow> None)"
    unfolding base64_encode.simps append_Cons append_Nil by (rule decode_quad) (rule p)+
  also have "unat a div 4 * 4 + (unat a mod 4 * 16 + unat b div 16) div 16 = unat a"
    by (rule byte_parts3) (rule unat_byte)
  also have "(unat a mod 4 * 16 + unat b div 16) mod 16 * 16 +
      (unat b mod 16 * 4 + unat c div 64) div 4 = unat b"
    by (rule byte_parts4) (rule unat_byte)+
  also have "(unat b mod 16 * 4 + unat c div 64) mod 4 * 64 + unat c mod 64 = unat c"
    by (rule byte_parts4) (rule unat_byte)+
  finally show ?case by (simp add: "4.IH")
qed

lemma unat_of_nat_byte: "n < 256 \<Longrightarrow> unat (of_nat n :: byte) = n"
  by (simp add: unat_of_nat)

lemma int16_of_bytes_roundtrip:
  assumes "- 32768 \<le> v" "v \<le> 32767"
  shows "int16s (int16_bytes v @ rest) = v # int16s rest"
proof -
  define u where "u = nat (v mod 65536)"
  have u: "u < 65536" by (simp add: u_def nat_less_iff)
  then have lo: "unat (of_nat (u mod 256) :: byte) = u mod 256"
    and hi: "unat (of_nat (u div 256) :: byte) = u div 256"
    by (simp_all add: unat_of_nat_byte)
  have signed: "(if u < 32768 then int u else int u - 65536) = v"
  proof (cases "0 \<le> v")
    case True
    with assms have "v mod 65536 = v" by simp
    with True assms show ?thesis by (simp add: u_def)
  next
    case False
    have "v mod 65536 = (v + 65536) mod 65536" by simp
    also from False assms have "\<dots> = v + 65536" by (intro mod_pos_pos_trivial) simp_all
    finally have "v mod 65536 = v + 65536" .
    with False assms show ?thesis by (simp add: u_def)
  qed
  have "int16_of_bytes (of_nat (u mod 256)) (of_nat (u div 256)) = v"
    unfolding int16_of_bytes_def Let_def lo hi using signed by (simp split: if_splits)
  then show ?thesis by (simp add: int16_bytes_def Let_def u_def)
qed

lemma quantize_range: "- 32768 \<le> quantize x \<and> quantize x \<le> 32767"
  by (simp add: quantize_def)

lemma int16s_quantized:
  "int16s (concat (map (\<lambda>x. int16_bytes (quantize x)) xs)) = map quantize xs"
  by (induction xs) (simp_all add: int16_of_bytes_roundtrip quantize_range)

lemma length_quantized:
  "length (concat (map (\<lambda>x. int16_bytes (quantize x)) xs)) = 2 * length xs"
  by (induction xs) (simp_all add: int16_bytes_def Let_def)

lemma codec_roundtrip:
  "decodeChunk (encode xs) =
     Inr \<lparr>sampleRate = 24000, numberOfChannels = 1, frames = length xs,
          samples = map (\<lambda>x. real_of_int (quantize x) / 32768) xs\<rparr>"
  by (simp add: decodeChunk_def encode_def decode_def base64_roundtrip decodeAudioData_def
      length_quantized int16s_quantized comp_def)

lemma quantize_error:
  assumes "- 1 \<le> x" "x \<le> 1"
  shows "\<bar>real_of_int (quantize x) / 32768 - x\<bar> \<le> 3 / 65536"
proof -
  have r: "\<bar>real_of_int (round (x * 32767)) - x * 32767\<bar> \<le> 1 / 2"
    by (rule of_int_round_abs_le)
  have "- 32767 \<le> x * 32767" "x * 32767 \<le> 32767" using assms by simp_all
  then have "- 32767 \<le> round (x * 32767)" "round (x * 32767) \<le> 32767"
    using round_mono [of "- 32767" "x * 32767"] round_mono [of "x * 32767" 32767] by simp_all
  then have q: "quantize x = round (x * 32767)" by (simp add: quantize_def)
  have "\<bar>real_of_int (round (x * 32767)) - x * 32768\<bar> \<le> 1 / 2 + \<bar>x\<bar>"
    using r by linarith
  also have "\<dots> \<le> 3 / 2" using assms by linarith
  finally have "\<bar>real_of_int (round (x * 32767)) - x * 32768\<bar> \<le> 3 / 2" .
  then have "\<bar>real_of_int (round (x * 32767)) / 32768 - x\<bar> \<le> 3 / 65536"
    by linarith
  then show ?thesis by (simp only: q)
qed

lemma quantize_example: "quantize (99998 / 100000) = 32766"
  by (simp add: quantize_def round_def)

section \<open>The onmessage callback: proofs\<close>

lemma duration_nonneg: "0 \<le> duration b"
  by (simp add: duration_def)

lemma appendFragment_fields [simp]:
  "effects (appendFragment m s) = effects s"
  "nextStartTimeRef (appendFragment m s) = nextStartTimeRef s"
  "outputAudioContextRef (appendFragment m s) = outputAudioContextRef s"
  "playingSourcesRef (appendFragment m s) = playingSourcesRef s"
  "created (appendFragment m s) = created s"
  "status (appendFragment m s) = status s"
  "transcript (appendFragment m s) = transcript s"
  "error (appendFragment m s) = error s"
  "sessionPromiseRef (appendFragment m s) = sessionPromiseRef s"
  "inputAudioContextRef (appendFragment m s) = inputAudioContextRef s"
  "microphoneStreamRef (appendFragment m s) = microphoneStreamRef s"
  "scriptProcessorRef (appendFragment m s) = scriptProcessorRef s"
  by (simp_all add: appendFragment_def split: option.splits)

lemma completeTurn_fields [simp]:
  "effects (completeTurn s) = effects s"
  "nextStartTimeRef (completeTurn s) = nextStartTimeRef s"
  "outputAudioContextRef (completeTurn s) = outputAudioContextRef s"
  "playingSourcesRef (completeTurn s) = playingSourcesRef s"
  "created (completeTurn s) = created s"
  "status (completeTurn s) = status s"
  "error (completeTurn s) = error s"
  "sessionPromiseRef (completeTurn s) = sessionPromiseRef s"
  "inputAudioContextRef (completeTurn s) = inputAudioContextRef s"
  "microphoneStreamRef (completeTurn s) = microphoneStreamRef s"
  "scriptProcessorRef (completeTurn s) = scriptProcessorRef s"
  "currentInputTranscriptionRef (completeTurn s) = []"
  "currentOutputTranscriptionRef (completeTurn s) = []"
  by (simp_all add: completeTurn_def Let_def)

lemma textPart_fields [simp]:
  "effects (textPart m s) = effects s"
  "nextStartTimeRef (textPart m s) = nextStartTimeRef s"
  "outputAudioContextRef (textPart m s) = outputAudioContextRef s"
  "playingSourcesRef (textPart m s) = playingSourcesRef s"
  "created (textPart m s) = created s"
  "status (textPart m s) = status s"
  "error (textPart m s) = error s"
  "sessionPromiseRef (textPart m s) = sessionPromiseRef s"
  "inputAudioContextRef (textPart m s) = inputAudioContextRef s"
  "microphoneStreamRef (textPart m s) = microphoneStreamRef s"
  "scriptProcessorRef (textPart m s) = scriptProcessorRef s"
  by (simp_all add: textPart_def)

lemma onmessage_arrive_textPart:
  "onmessage_arrive m now s =
     (case audioDataOf m of
        Inl e \<Rightarrow> Settled (Threw e (textPart m s))
      | Inr None \<Rightarrow> Settled (Returned (interruption m (textPart m s)))
      | Inr (Some audioData) \<Rightarrow>
          if audioData \<noteq> [] \<and> outputAudioContextRef s \<noteq> None
          then AwaitingDecode audioData
                 ((textPart m s)\<lparr>nextStartTimeRef := max (nextStartTimeRef s) now\<rparr>)
          else Settled (Returned (interruption m (textPart m s))))"
  by (simp add: onmessage_arrive_def textPart_def Let_def split: sum.splits option.splits)

text \<open>
  One handler run on a message without the interruption flag: either nothing is
  scheduled and the cursor does not go back, or one chunk is scheduled at the maximum
  of the cursor and the clock.
\<close>

lemma onmessage_step:
  assumes "\<not> interrupted m"
  shows "(scheduled (state_of (onmessage dec m now s)) = scheduled s \<and>
          nextStartTimeRef s \<le> nextStartTimeRef (state_of (onmessage dec m now s))) \<or>
         (\<exists>b. scheduled (state_of (onmessage dec m now s)) =
                 scheduled s @ [(max (nextStartTimeRef s) now, duration b)] \<and>
              nextStartTimeRef (state_of (onmessage dec m now s)) =
                 max (nextStartTimeRef s) now + duration b)"
  using assms
  by (auto simp add: onmessage_def onmessage_arrive_textPart onmessage_resume_def
      interruption_def scheduled_def call_def Let_def
      split: sum.splits option.splits)

lemma handleAll_snoc:
  "handleAll dec (ms @ [(m, now)]) s = state_of (onmessage dec m now (handleAll dec ms s))"
  by (simp add: handleAll_def)

lemma inOrder_snoc:
  "inOrder (plan @ [(t', d')]) \<longleftrightarrow>
     inOrder plan \<and> (plan = [] \<or> fst (last plan) + snd (last plan) \<le> t')"
  by (auto simp add: inOrder_def successively_append_iff split: prod.splits)

lemma handleAll_plan:
  assumes "\<forall>(m, now) \<in> set ms. \<not> interrupted m"
  shows "\<exists>new. scheduled (handleAll dec ms s) = scheduled s @ new \<and>
           inOrder new \<and> sorted (map fst new) \<and>
           (\<forall>(t, d) \<in> set new. nextStartTimeRef s \<le> t \<and> 0 \<le> d \<and>
               t + d \<le> nextStartTimeRef (handleAll dec ms s)) \<and>
           nextStartTimeRef s \<le> nextStartTimeRef (handleAll dec ms s)"
  using assms
proof (induction ms rule: rev_induct)
  case Nil
  show ?case by (simp add: handleAll_def inOrder_def)
next
  case (snoc x ms)
  obtain m now where x: "x = (m, now)" by (cases x)
  let ?s1 = "handleAll dec ms s"
  let ?s2 = "state_of (onmessage dec m now ?s1)"
  from snoc.prems x have quiet: "\<not> interrupted m" by simp
  from snoc.prems have "\<forall>(m, now) \<in> set ms. \<not> interrupted m" by simp
  with snoc.IH obtain new where
    new: "scheduled ?s1 = scheduled s @ new" "inOrder new" "sorted (map fst new)"
      "\<forall>(t, d) \<in> set new. nextStartTimeRef s \<le> t \<and> 0 \<le> d \<and> t + d \<le> nextStartTimeRef ?s1"
      "nextStartTimeRef s \<le> nextStartTimeRef ?s1"
    by blast
  from onmessage_step [OF quiet, of dec now ?s1]
  consider
    (idle) "scheduled ?s2 = scheduled ?s1" "nextStartTimeRef ?s1 \<le> nextStartTimeRef ?s2"
  | (chunk) b where
      "scheduled ?s2 = scheduled ?s1 @ [(max (nextStartTimeRef ?s1) now, duration b)]"
      "nextStartTimeRef ?s2 = max (nextStartTimeRef ?s1) now + duration b"
    by blast
  then show ?case
  proof cases
    case idle
    have "scheduled ?s2 = scheduled s @ new" using idle new by simp
    moreover have "\<forall>(t, d) \<in> set new.
        nextStartTimeRef s \<le> t \<and> 0 \<le> d \<and> t + d \<le> nextStartTimeRef ?s2"
      using new(4) idle(2) by fastforce
    moreover have "nextStartTimeRef s \<le> nextStartTimeRef ?s2"
      using new(5) idle(2) by simp
    ultimately show ?thesis
      unfolding x handleAll_snoc using new(2,3) by blast
  next
    case chunk
    let ?t = "max (nextStartTimeRef ?s1) now"
    let ?new = "new @ [(?t, duration b)]"
    have d: "0 \<le> duration b" by (rule duration_nonneg)
    have before: "\<forall>(t, d) \<in> set new. t \<le> ?t \<and> t + d \<le> ?t"
      using new(4) by fastforce
    have "scheduled ?s2 = scheduled s @ ?new" using chunk new by simp
    moreover have "inOrder ?new"
    proof (cases "new = []")
      case True
      then show ?thesis by (simp add: inOrder_def)
    next
      case False
      then have "last new \<in> set new" by simp
      with before have "fst (last new) + snd (last new) \<le> ?t" by fastforce
      with new(2) show ?thesis by (simp add: inOrder_snoc)
    qed
    moreover have "sorted (map fst ?new)"
      using new(3) before by (fastforce simp add: sorted_append)
    moreover have "\<forall>(t, d) \<in> set ?new.
        nextStartTimeRef s \<le> t \<and> 0 \<le> d \<and> t + d \<le> nextStartTimeRef ?s2"
      using new(4,5) chunk(2) d by fastforce
    moreover have "nextStartTimeRef s \<le> nextStartTimeRef ?s2"
      using new(5) chunk(2) d by simp
    ultimately show ?thesis
      unfolding x handleAll_snoc by blast
  qed
qed

lemma audioDataOf_audioMessage [simp]: "audioDataOf (audioMessage d) = Inr (Some d)"
  by (simp add: audioDataOf_def audioMessage_def emptyMessage_def)

lemma textPart_audioMessage [simp]: "textPart (audioMessage d) s = s"
  by (simp add: textPart_def appendFragment_def audioMessage_def emptyMessage_def)

lemma interrupted_audioMessage [simp]: "\<not> interrupted (audioMessage d)"
  by (simp add: audioMessage_def emptyMessage_def)

lemma onmessage_arrive_audio:
  assumes "outputAudioContextRef s \<noteq> None" "d \<noteq> []"
  shows "onmessage_arrive (audioMessage d) now s =
           AwaitingDecode d (s\<lparr>nextStartTimeRef := max (nextStartTimeRef s) now\<rparr>)"
  using assms by (simp add: onmessage_arrive_textPart)

lemma onmessage_resume_chunk:
  assumes "\<not> interrupted m"
  shows "scheduled (state_of (onmessage_resume m (Inr b) s)) =
           scheduled s @ [(nextStartTimeRef s, duration b)]"
    "nextStartTimeRef (state_of (onmessage_resume m (Inr b) s)) = nextStartTimeRef s + duration b"
    "outputAudioContextRef (state_of (onmessage_resume m (Inr b) s)) = outputAudioContextRef s"
  using assms
  by (simp_all add: onmessage_resume_def interruption_def scheduled_def call_def Let_def)

lemma scheduled_cursor_update [simp]:
  "scheduled (s\<lparr>nextStartTimeRef := c\<rparr>) = scheduled s"
  by (simp add: scheduled_def)

lemma onmessage_audio:
  assumes "outputAudioContextRef s \<noteq> None" "d \<noteq> []" "dec d = Inr b"
  shows "scheduled (state_of (onmessage dec (audioMessage d) now s)) =
           scheduled s @ [(max (nextStartTimeRef s) now, duration b)]"
    "nextStartTimeRef (state_of (onmessage dec (audioMessage d) now s)) =
           max (nextStartTimeRef s) now + duration b"
    "outputAudioContextRef (state_of (onmessage dec (audioMessage d) now s)) =
           outputAudioContextRef s"
  using assms
  by (simp_all add: onmessage_def onmessage_arrive_audio onmessage_resume_chunk)

lemma two_chunks:
  assumes "outputAudioContextRef s \<noteq> None" "d1 \<noteq> []" "d2 \<noteq> []"
    "dec d1 = Inr b1" "dec d2 = Inr b2"
  shows "scheduled (handleAll dec [(audioMessage d1, now1), (audioMessage d2, now2)] s) =
     scheduled s @ [(max (nextStartTimeRef s) now1, duration b1),
                    (max (max (nextStartTimeRef s) now1 + duration b1) now2, duration b2)]"
proof -
  let ?s1 = "state_of (onmessage dec (audioMessage d1) now1 s)"
  note first = onmessage_audio [where dec = dec and d = d1 and now = now1, OF assms(1,2,4)]
  from first(3) assms(1) have ctx: "outputAudioContextRef ?s1 \<noteq> None" by simp
  note second = onmessage_audio [where dec = dec and d = d2 and now = now2, OF ctx assms(3,5)]
  show ?thesis by (simp add: handleAll_def second first)
qed

text \<open>
  Two chunks whose handlers are both waiting: when the second decoding settles first,
  the second chunk is started first and the first chunk after it.
\<close>

lemma decode_order_decides:
  assumes "outputAudioContextRef s \<noteq> None" "d1 \<noteq> []" "d2 \<noteq> []"
    and "onmessage_arrive (audioMessage d1) now1 s = AwaitingDecode d1 s1"
    and "onmessage_arrive (audioMessage d2) now2 s1 = AwaitingDecode d2 s2"
  shows "scheduled (state_of (onmessage_resume (audioMessage d1) (Inr b1)
            (state_of (onmessage_resume (audioMessage d2) (Inr b2) s2)))) =
     scheduled s @ [(max (max (nextStartTimeRef s) now1) now2, duration b2),
                    (max (max (nextStartTimeRef s) now1) now2 + duration b2, duration b1)]"
proof -
  from assms(1,2,4) have s1: "s1 = s\<lparr>nextStartTimeRef := max (nextStartTimeRef s) now1\<rparr>"
    by (simp add: onmessage_arrive_audio)
  with assms(1,3,5) have s2: "s2 = s1\<lparr>nextStartTimeRef := max (nextStartTimeRef s1) now2\<rparr>"
    by (simp add: onmessage_arrive_audio)
  show ?thesis
    by (simp add: onmessage_resume_chunk s2 s1)
qed

text \<open>
  C1, as amended. For messages handled one after the other with no interruption among
  them, the chunks scheduled are in order and do not overlap, and their start times are
  non-decreasing. A chunk starts at the maximum of the cursor and the output clock at its
  arrival: of two chunks in a row the second starts at
  \<open>max (start + duration of the first) (clock at its arrival)\<close>, which is the end of the
  first only when the clock has not passed it. When a message arrives the cursor is only
  raised to \<open>max cursor clock\<close>; the chunk is started at the cursor, and the cursor
  advanced by its duration, in the part of the handler that runs after the decoding has
  settled.
\<close>

theorem enqueue_plan:
  assumes "\<forall>(m, now) \<in> set ms. \<not> interrupted m"
  shows "(\<exists>new. scheduled (handleAll dec ms s) = scheduled s @ new \<and>
            inOrder new \<and> sorted (map fst new)) \<and>
         (outputAudioContextRef s \<noteq> None \<and> d1 \<noteq> [] \<and> d2 \<noteq> [] \<and>
          dec d1 = Inr b1 \<and> dec d2 = Inr b2 \<longrightarrow>
            scheduled (handleAll dec [(audioMessage d1, now1), (audioMessage d2, now2)] s) =
              scheduled s @ [(max (nextStartTimeRef s) now1, duration b1),
                (max (max (nextStartTimeRef s) now1 + duration b1) now2, duration b2)]) \<and>
         (outputAudioContextRef s \<noteq> None \<and> d1 \<noteq> [] \<longrightarrow>
            onmessage_arrive (audioMessage d1) now1 s =
              AwaitingDecode d1 (s\<lparr>nextStartTimeRef := max (nextStartTimeRef s) now1\<rparr>)) \<and>
         scheduled (state_of (onmessage_resume (audioMessage d1) (Inr b1) s)) =
            scheduled s @ [(nextStartTimeRef s, duration b1)] \<and>
         nextStartTimeRef (state_of (onmessage_resume (audioMessage d1) (Inr b1) s)) =
            nextStartTimeRef s + duration b1"
proof -
  from handleAll_plan [OF assms, of dec s]
  have "\<exists>new. scheduled (handleAll dec ms s) = scheduled s @ new \<and>
            inOrder new \<and> sorted (map fst new)"
    by blast
  then show ?thesis
    by (simp add: two_chunks onmessage_arrive_audio onmessage_resume_chunk)
qed

lemma decodeChunk_zeros: "decodeChunk ''AAAAAA=='' = Inr chunk"
  by (simp add: decodeChunk_def decode_def decodeAudioData_def base64_value_def
      int16_of_bytes_def chunk_def)

lemma duration_chunk: "duration chunk = 1 / 12000"
  by (simp add: duration_def chunk_def)

lemma scheduled_listening: "scheduled listening = []"
  by (simp add: scheduled_def listening_def initial_def)

lemma listening_ctx: "outputAudioContextRef listening \<noteq> None" "nextStartTimeRef listening = 0"
  by (simp_all add: listening_def initial_def)

theorem enqueue_plan_witness:
  "\<not> interrupted (audioMessage ''AAAAAA=='') \<and>
   scheduled (handleAll decodeChunk
      [(audioMessage ''AAAAAA=='', 0), (audioMessage ''AAAAAA=='', 1 / 24000)] listening) =
     [(0, 1 / 12000), (1 / 12000, 1 / 12000)] \<and>
   inOrder [(0, 1 / 12000), (1 / 12000, 1 / 12000)]"
proof -
  have h: "\<forall>(m, now) \<in> set [(audioMessage ''AAAAAA=='', 0 :: real),
      (audioMessage ''AAAAAA=='', 1 / 24000)]. \<not> interrupted m"
    by simp
  from enqueue_plan [OF h, of decodeChunk listening "''AAAAAA==''" "''AAAAAA==''" chunk chunk
      0 "1 / 24000"]
  have plan: "scheduled (handleAll decodeChunk
      [(audioMessage ''AAAAAA=='', 0), (audioMessage ''AAAAAA=='', 1 / 24000)] listening) =
     [(0, 1 / 12000), (1 / 12000, 1 / 12000)]"
    by (simp add: decodeChunk_zeros duration_chunk scheduled_listening listening_ctx)
  then show ?thesis by (simp add: inOrder_def)
qed

theorem enqueue_gap_counterexample:
  "\<not> gapless (scheduled (handleAll decodeChunk
      [(audioMessage ''AAAAAA=='', 1), (audioMessage ''AAAAAA=='', 6)] listening))"
proof -
  have "scheduled (handleAll decodeChunk
      [(audioMessage ''AAAAAA=='', 1), (audioMessage ''AAAAAA=='', 6)] listening) =
     [(1, 1 / 12000), (6, 1 / 12000)]"
    using two_chunks [of listening "''AAAAAA==''" "''AAAAAA==''" decodeChunk chunk chunk 1 6]
    by (simp add: decodeChunk_zeros duration_chunk scheduled_listening listening_ctx)
  then show ?thesis by (simp add: gapless_def)
qed

lemma held_textPart [simp]: "held (textPart m s) = held s"
  by (simp add: held_def)

lemma held_cursor_update [simp]: "held (s\<lparr>nextStartTimeRef := c\<rparr>) = held s"
  by (simp add: held_def)

text \<open>
  C2, as amended. When the decoding of a chunk fails, the handler of that message is
  rejected at the \<open>await\<close> and the session is not aborted: status, error message, held
  resources, playing sources and calls made are as before the message, the transcript
  is as the transcription part of the message left it, and the cursor has been raised
  to \<open>max cursor clock\<close>. Nothing after the \<open>await\<close> runs for that message. The
  messages after it are handled from that state.
\<close>

theorem decode_failure_local:
  assumes "audioDataOf m = Inr (Some d)" "d \<noteq> []" "outputAudioContextRef s \<noteq> None"
    "dec d = Inl e"
  shows "onmessage dec m now s =
           Threw e ((textPart m s)\<lparr>nextStartTimeRef := max (nextStartTimeRef s) now\<rparr>) \<and>
         status (state_of (onmessage dec m now s)) = status s \<and>
         error (state_of (onmessage dec m now s)) = error s \<and>
         held (state_of (onmessage dec m now s)) = held s \<and>
         playingSourcesRef (state_of (onmessage dec m now s)) = playingSourcesRef s \<and>
         effects (state_of (onmessage dec m now s)) = effects s \<and>
         transcript (state_of (onmessage dec m now s)) = transcript (textPart m s) \<and>
         handleAll dec ((m, now) # ms) s = handleAll dec ms (state_of (onmessage dec m now s))"
  using assms
  by (simp add: onmessage_def onmessage_arrive_textPart onmessage_resume_def handleAll_def)

lemma decodeChunk_malformed:
  "decodeChunk ''!!!'' = Inl (JsError ''MalformedPayload'' ''not valid base64'')"
  by (simp add: decodeChunk_def decode_def)

theorem decode_failure_local_witness:
  "onmessage decodeChunk (audioMessage ''!!!'') 5 playing =
     Threw (JsError ''MalformedPayload'' ''not valid base64'')
       (playing\<lparr>nextStartTimeRef := 5\<rparr>) \<and>
   status (state_of (onmessage decodeChunk (audioMessage ''!!!'') 5 playing)) = LISTENING"
proof -
  have ctx: "outputAudioContextRef playing \<noteq> None"
    and cursor: "max (nextStartTimeRef playing) 5 = 5"
    and st: "status playing = LISTENING"
    by (simp_all add: playing_def listening_def initial_def)
  from decode_failure_local
    [of "audioMessage ''!!!''" "''!!!''" playing decodeChunk
       "JsError ''MalformedPayload'' ''not valid base64''" 5 "[]"]
  show ?thesis by (simp add: ctx cursor st decodeChunk_malformed)
qed

theorem decode_failure_counterexample:
  "decodeChunk ''!!!'' = Inl (JsError ''MalformedPayload'' ''not valid base64'') \<and>
   playingSourcesRef playing = [\<lparr>node = 0, buffer = chunk\<rparr>] \<and>
   nextStartTimeRef playing = 1 / 12000 \<and>
   playingSourcesRef (state_of (onmessage decodeChunk
      ((audioMessage ''!!!'')\<lparr>interrupted := True\<rparr>) 5 playing)) = [\<lparr>node = 0, buffer = chunk\<rparr>] \<and>
   nextStartTimeRef (state_of (onmessage decodeChunk
      ((audioMessage ''!!!'')\<lparr>interrupted := True\<rparr>) 5 playing)) = 5 \<and>
   playingSourcesRef (state_of (onmessage decodeChunk
      (emptyMessage\<lparr>interrupted := True\<rparr>) 5 playing)) = [] \<and>
   nextStartTimeRef (state_of (onmessage decodeChunk
      (emptyMessage\<lparr>interrupted := True\<rparr>) 5 playing)) = 0"
  by (simp add: decodeChunk_malformed onmessage_def onmessage_arrive_def onmessage_resume_def
      appendFragment_def audioDataOf_def audioMessage_def emptyMessage_def interruption_def
      flush_def stopAllSources_def call_def playing_def listening_def initial_def)

lemma scheduled_stops [simp]: "concat (map scheduledBy (map SourceStop sources)) = []"
  by (induction sources) simp_all

lemma flush_fields [simp]:
  "playingSourcesRef (flush s) = []"
  "nextStartTimeRef (flush s) = 0"
  "effects (flush s) = effects s @ map SourceStop (playingSourcesRef s)"
  "outputAudioContextRef (flush s) = outputAudioContextRef s"
  "scheduled (flush s) = scheduled s"
  by (simp_all add: flush_def stopAllSources_def call_def scheduled_def)





lemma trim_ends:
  assumes "trim str \<noteq> []"
  shows "\<not> isWhiteSpace (hd (trim str)) \<and> \<not> isWhiteSpace (last (trim str))"
proof -
  let ?ys = "dropWhile isWhiteSpace str"
  let ?zs = "dropWhile isWhiteSpace (rev ?ys)"
  from assms have zs: "?zs \<noteq> []" by (simp add: trim_def)
  then have ys: "?ys \<noteq> []" by (metis dropWhile.simps(1) rev.simps(1))
  from zs have "\<not> isWhiteSpace (hd ?zs)" by (rule hd_dropWhile)
  with zs have l: "\<not> isWhiteSpace (last (trim str))" by (simp add: trim_def last_rev)
  obtain ws where "rev ?ys = ws @ ?zs"
    by (metis takeWhile_dropWhile_id)
  with zs have "last ?zs = last (rev ?ys)" by (metis last_appendR)
  also from ys have "\<dots> = hd ?ys" by (simp add: last_rev)
  finally have "last ?zs = hd ?ys" .
  moreover from ys have "\<not> isWhiteSpace (hd ?ys)" by (rule hd_dropWhile)
  ultimately have "\<not> isWhiteSpace (hd (trim str))" using zs by (simp add: trim_def hd_rev)
  with l show ?thesis by simp
qed

lemma completeTurn_transcript:
  "transcript (completeTurn s) =
     transcript s @
     (if trim (currentInputTranscriptionRef s) \<noteq> []
      then [\<lparr>speaker = user, text = trim (currentInputTranscriptionRef s)\<rparr>] else []) @
     (if trim (currentOutputTranscriptionRef s) \<noteq> []
      then [\<lparr>speaker = gemini, text = trim (currentOutputTranscriptionRef s)\<rparr>] else [])"
  by (simp add: completeTurn_def Let_def)

lemma trim_Nil [simp]: "trim [] = []"
  by (simp add: trim_def)

lemma trim_samples: "trim ''hello'' = ''hello''" "trim ''hi'' = ''hi''"
  by (simp_all add: trim_def isWhiteSpace_def)

lemma text_message:
  assumes "modelTurn m = None" "\<not> interrupted m"
  shows "onmessage dec m now s = Returned (textPart m s)"
  using assms
  by (simp add: onmessage_def onmessage_arrive_textPart audioDataOf_def interruption_def)

lemma turn_example:
  assumes "currentInputTranscriptionRef s = []" "currentOutputTranscriptionRef s = []"
  shows "transcript (handleAll dec
           [(inputFragment ''hel'', t1), (inputFragment ''lo'', t2),
            (outputFragment ''hi'', t3), (turnCompleted, t4)] s) =
         transcript s @ [\<lparr>speaker = user, text = ''hello''\<rparr>, \<lparr>speaker = gemini, text = ''hi''\<rparr>]"
    "currentInputTranscriptionRef (handleAll dec
           [(inputFragment ''hel'', t1), (inputFragment ''lo'', t2),
            (outputFragment ''hi'', t3), (turnCompleted, t4)] s) = []"
    "currentOutputTranscriptionRef (handleAll dec
           [(inputFragment ''hel'', t1), (inputFragment ''lo'', t2),
            (outputFragment ''hi'', t3), (turnCompleted, t4)] s) = []"
  using assms
  by (simp_all add: handleAll_def text_message inputFragment_def outputFragment_def
      turnCompleted_def emptyMessage_def textPart_def appendFragment_def
      completeTurn_transcript trim_samples)

text \<open>
  C4. On \<open>turnComplete\<close> each buffer is trimmed and one entry is appended per buffer
  that is not empty after trimming, the user's first and the assistant's second; an
  appended text is never empty and neither starts nor ends with white space; both
  buffers are empty afterwards in every case. With both buffers empty nothing is
  appended. From empty buffers the fragments \<open>hel\<close> and \<open>lo\<close> of the user and \<open>hi\<close>
  of the assistant, then \<open>turnComplete\<close>, append exactly the entries \<open>hello\<close> of the
  user and \<open>hi\<close> of the assistant.
\<close>

theorem completeTurn_entries:
  "transcript (completeTurn s) =
     transcript s @
     (if trim (currentInputTranscriptionRef s) \<noteq> []
      then [\<lparr>speaker = user, text = trim (currentInputTranscriptionRef s)\<rparr>] else []) @
     (if trim (currentOutputTranscriptionRef s) \<noteq> []
      then [\<lparr>speaker = gemini, text = trim (currentOutputTranscriptionRef s)\<rparr>] else []) \<and>
   currentInputTranscriptionRef (completeTurn s) = [] \<and>
   currentOutputTranscriptionRef (completeTurn s) = [] \<and>
   (\<forall>e \<in> set (drop (length (transcript s)) (transcript (completeTurn s))).
      text e \<noteq> [] \<and> \<not> isWhiteSpace (hd (text e)) \<and> \<not> isWhiteSpace (last (text e))) \<and>
   onmessage dec turnCompleted now s = Returned (completeTurn s) \<and>
   (currentInputTranscriptionRef s = [] \<and> currentOutputTranscriptionRef s = [] \<longrightarrow>
      transcript (completeTurn s) = transcript s \<and>
      transcript (handleAll dec
           [(inputFragment ''hel'', t1), (inputFragment ''lo'', t2),
            (outputFragment ''hi'', t3), (turnCompleted, t4)] s) =
        transcript s @ [\<lparr>speaker = user, text = ''hello''\<rparr>, \<lparr>speaker = gemini, text = ''hi''\<rparr>] \<and>
      currentInputTranscriptionRef (handleAll dec
           [(inputFragment ''hel'', t1), (inputFragment ''lo'', t2),
            (outputFragment ''hi'', t3), (turnCompleted, t4)] s) = [] \<and>
      currentOutputTranscriptionRef (handleAll dec
           [(inputFragment ''hel'', t1), (inputFragment ''lo'', t2),
            (outputFragment ''hi'', t3), (turnCompleted, t4)] s) = [])"
proof -
  have run: "onmessage dec turnCompleted now s = Returned (completeTurn s)"
    by (simp add: text_message turnCompleted_def emptyMessage_def textPart_def
        appendFragment_def)
  have trimmed: "\<forall>e \<in> set (drop (length (transcript s)) (transcript (completeTurn s))).
      text e \<noteq> [] \<and> \<not> isWhiteSpace (hd (text e)) \<and> \<not> isWhiteSpace (last (text e))"
    by (auto simp add: completeTurn_transcript dest: trim_ends)
  have example: "currentInputTranscriptionRef s = [] \<and> currentOutputTranscriptionRef s = [] \<longrightarrow>
      transcript (completeTurn s) = transcript s \<and>
      transcript (handleAll dec
           [(inputFragment ''hel'', t1), (inputFragment ''lo'', t2),
            (outputFragment ''hi'', t3), (turnCompleted, t4)] s) =
        transcript s @ [\<lparr>speaker = user, text = ''hello''\<rparr>, \<lparr>speaker = gemini, text = ''hi''\<rparr>] \<and>
      currentInputTranscriptionRef (handleAll dec
           [(inputFragment ''hel'', t1), (inputFragment ''lo'', t2),
            (outputFragment ''hi'', t3), (turnCompleted, t4)] s) = [] \<and>
      currentOutputTranscriptionRef (handleAll dec
           [(inputFragment ''hel'', t1), (inputFragment ''lo'', t2),
            (outputFragment ''hi'', t3), (turnCompleted, t4)] s) = []"
    using turn_example [of s dec t1 t2 t3 t4] by (simp add: completeTurn_transcript)
  from run trimmed example show ?thesis
    by (simp only: completeTurn_transcript completeTurn_fields simp_thms)
qed

theorem completeTurn_entries_witness:
  "transcript (handleAll decodeChunk
       [(inputFragment ''hel'', 1), (inputFragment ''lo'', 2),
        (outputFragment ''hi'', 3), (turnCompleted, 4)] listening) =
     [\<lparr>speaker = user, text = ''hello''\<rparr>, \<lparr>speaker = gemini, text = ''hi''\<rparr>] \<and>
   onmessage decodeChunk turnCompleted 5 listening = Returned (completeTurn listening) \<and>
   transcript (completeTurn listening) = []"
proof -
  have empty: "currentInputTranscriptionRef listening = []"
    "currentOutputTranscriptionRef listening = []" "transcript listening = []"
    by (simp_all add: listening_def initial_def)
  from completeTurn_entries [of listening decodeChunk 5 1 2 3 4]
  show ?thesis by (simp add: empty)
qed

section \<open>The round trip through the codec\<close>

lemma decode_encode:
  "decode (encode xs) = Inr (concat (map (\<lambda>x. int16_bytes (quantize x)) xs))"
  by (simp add: decode_def encode_def base64_roundtrip)

lemma decodeAudioData_quantized:
  "decodeAudioData (concat (map (\<lambda>x. int16_bytes (quantize x)) xs)) rate 1 =
     Inr \<lparr>sampleRate = rate, numberOfChannels = 1, frames = length xs,
          samples = map (\<lambda>x. real_of_int (quantize x) / 32768) xs\<rparr>"
  by (simp add: decodeAudioData_def length_quantized int16s_quantized comp_def)

text \<open>
  C9, as amended. For samples in \<open>[-1, 1]\<close>, encoding followed by \<open>decode\<close> and
  \<open>decodeAudioData\<close> with one channel succeeds and gives as many samples as there
  were, each within \<open>3 / 65536\<close> (that is \<open>1.5 / 32768\<close>) of the original.
\<close>

theorem codec_roundtrip_error:
  assumes "\<forall>x \<in> set xs. - 1 \<le> x \<and> x \<le> 1"
  shows "\<exists>bytes b. decode (encode xs) = Inr bytes \<and>
           decodeAudioData bytes rate 1 = Inr b \<and>
           frames b = length xs \<and> length (samples b) = length xs \<and>
           (\<forall>i < length xs. \<bar>samples b ! i - xs ! i\<bar> \<le> 3 / 65536)"
proof -
  let ?b = "\<lparr>sampleRate = rate, numberOfChannels = 1, frames = length xs,
          samples = map (\<lambda>x. real_of_int (quantize x) / 32768) xs\<rparr>"
  have "\<forall>i < length xs. \<bar>samples ?b ! i - xs ! i\<bar> \<le> 3 / 65536"
  proof (intro allI impI)
    fix i
    assume i: "i < length xs"
    then have "xs ! i \<in> set xs" by simp
    with assms have "- 1 \<le> xs ! i" "xs ! i \<le> 1" by auto
    then have "\<bar>real_of_int (quantize (xs ! i)) / 32768 - xs ! i\<bar> \<le> 3 / 65536"
      by (rule quantize_error)
    with i show "\<bar>samples ?b ! i - xs ! i\<bar> \<le> 3 / 65536" by simp
  qed
  then show ?thesis
    using decode_encode [of xs] decodeAudioData_quantized [of xs rate] by simp
qed

theorem codec_roundtrip_error_witness:
  "\<exists>bytes b. decode (encode [1, - 1, 0, 1 / 2]) = Inr bytes \<and>
     decodeAudioData bytes 24000 1 = Inr b \<and> frames b = 4 \<and> length (samples b) = 4 \<and>
     \<bar>samples b ! 0 - 1\<bar> \<le> 3 / 65536 \<and> \<bar>samples b ! 1 - (- 1)\<bar> \<le> 3 / 65536 \<and>
     \<bar>samples b ! 2 - 0\<bar> \<le> 3 / 65536 \<and> \<bar>samples b ! 3 - 1 / 2\<bar> \<le> 3 / 65536"
proof -
  have h: "\<forall>x \<in> set [1, - 1, 0, 1 / 2 :: real]. - 1 \<le> x \<and> x \<le> 1" by simp
  from codec_roundtrip_error [OF h, of 24000] obtain bytes b where
    r: "decode (encode [1, - 1, 0, 1 / 2]) = Inr bytes" "decodeAudioData bytes 24000 1 = Inr b"
      "frames b = 4" "length (samples b) = 4"
      "\<forall>i < 4. \<bar>samples b ! i - [1, - 1, 0, 1 / 2] ! i\<bar> \<le> 3 / 65536"
    by auto
  from r(5) [rule_format, of 0] r(5) [rule_format, of 1] r(5) [rule_format, of 2]
    r(5) [rule_format, of 3] r(1-4)
  show ?thesis by simp
qed

theorem codec_roundtrip_counterexample:
  "\<exists>bytes b. decode (encode [99998 / 100000]) = Inr bytes \<and>
     decodeAudioData bytes 24000 1 = Inr b \<and> samples b = [16383 / 16384] \<and>
     - 1 \<le> (99998 / 100000 :: real) \<and> (99998 / 100000 :: real) \<le> 1 \<and>
     1 / 32768 < \<bar>samples b ! 0 - 99998 / 100000\<bar>"
  using decode_encode [of "[99998 / 100000]"]
    decodeAudioData_quantized [of "[99998 / 100000]" 24000]
  by (simp add: quantize_def round_def)

end
